theory Spec2Isabelle
  imports Main
begin

section \<open>JavaScript strings\<close>

text \<open>
  A JavaScript string is a sequence of UTF-16 code units. Isabelle's \<open>char\<close> has only
  256 values, and the alphabet of the program uses code units beyond that
  (U+0141, U+0142, U+013F), so a string is modelled as a list of code units, each a
  number (an \<open>int\<close>, from 0 to 65535). \<open>asc\<close> turns an ASCII literal into such a string.

  Code units used below:
  45 is the hyphen, 46 the full stop, 63 the question mark, 183 the middle dot (U+00B7),
  199 C with cedilla (U+00C7), 219 U with circumflex (U+00DB, the internal QU tile),
  221 Y with acute (U+00DD, the internal NY tile), 251 and 253 their lower-case forms,
  319 L with middle dot (U+013F), 321 L with stroke (U+0141, the internal L.L tile) and
  322 its lower-case form.
\<close>

type_synonym jsstring = "int list"

definition asc :: "string \<Rightarrow> jsstring" where
  "asc s = map of_char s"


definition toUpperCaseUnit :: "int \<Rightarrow> jsstring" where
  "toUpperCaseUnit u =
     (if 97 \<le> u \<and> u \<le> 122 then [u - 32]
      else if u = 181 then [924]
      else if u = 223 then [83, 83]
      else if 224 \<le> u \<and> u \<le> 254 \<and> u \<noteq> 247 then [u - 32]
      else if u = 255 then [376]
      else if u = 320 then [319]
      else if u = 322 then [321]
      else [u])"

definition toLowerCaseUnit :: "int \<Rightarrow> jsstring" where
  "toLowerCaseUnit u =
     (if 65 \<le> u \<and> u \<le> 90 then [u + 32]
      else if 192 \<le> u \<and> u \<le> 222 \<and> u \<noteq> 215 then [u + 32]
      else if u = 319 then [320]
      else if u = 321 then [322]
      else [u])"

definition toUpperCase :: "jsstring \<Rightarrow> jsstring" where
  "toUpperCase s = concat (map toUpperCaseUnit s)"

definition toLowerCase :: "jsstring \<Rightarrow> jsstring" where
  "toLowerCase s = concat (map toLowerCaseUnit s)"

section \<open>The tile model (types.ts, scrabbleUtils.ts)\<close>

datatype MultiplierType =
  Normal | DoubleLetter | TripleLetter | DoubleWord | TripleWord | Center

text \<open>
  The interface \<open>Tile\<close>. Its fields \<open>char\<close> and \<open>value\<close> are named \<open>tchar\<close> and
  \<open>tvalue\<close> here.
\<close>

record Tile =
  tchar :: jsstring
  tvalue :: int
  isBlank :: bool
  displayChar :: jsstring

text \<open>
  The constant tables of types.ts, as association lists in the order of the source.
  An object lookup \<open>T[key] || d\<close> yields \<open>d\<close> when the key is absent; every value of
  these tables is truthy (a non-empty string, a non-zero number).
\<close>

definition DIGRAPH_MAP :: "(jsstring \<times> jsstring) list" where
  "DIGRAPH_MAP =
     [(asc ''QU'', [219]),
      ([76, 183, 76], [321]), (asc ''L.L'', [321]), (asc ''L-L'', [321]), ([319, 76], [321]),
      (asc ''NY'', [221])]"

definition REVERSE_DIGRAPH_MAP :: "(jsstring \<times> jsstring) list" where
  "REVERSE_DIGRAPH_MAP =
     [([219], asc ''QU''), ([321], [76, 183, 76]), ([221], asc ''NY'')]"

definition LETTER_VALUES :: "(jsstring \<times> int) list" where
  "LETTER_VALUES =
     [(asc ''A'', 1), (asc ''E'', 1), (asc ''I'', 1), (asc ''R'', 1), (asc ''S'', 1),
      (asc ''N'', 1), (asc ''O'', 1), (asc ''T'', 1), (asc ''L'', 1), (asc ''U'', 1),
      (asc ''C'', 2), (asc ''D'', 2), (asc ''M'', 2),
      (asc ''B'', 3), (asc ''G'', 3), (asc ''P'', 3),
      (asc ''F'', 4), (asc ''V'', 4),
      (asc ''H'', 8), (asc ''J'', 8), (asc ''Q'', 8), (asc ''Z'', 8),
      ([199], 10), (asc ''X'', 10),
      ([321], 10), ([221], 10), ([219], 8)]"

definition lookupOr :: "('k \<times> 'v) list \<Rightarrow> 'k \<Rightarrow> 'v \<Rightarrow> 'v" where
  "lookupOr table k d = (case map_of table k of Some v \<Rightarrow> v | None \<Rightarrow> d)"

text \<open>\<open>createTile\<close>: a tile from an internal symbol.\<close>

definition createTile :: "jsstring \<Rightarrow> Tile" where
  "createTile ch =
     (let blank = (ch = toLowerCase ch \<and> toUpperCase ch \<noteq> toLowerCase ch);
          upperChar = toUpperCase ch;
          disp = lookupOr REVERSE_DIGRAPH_MAP upperChar upperChar
      in if ch = asc ''?''
         then \<lparr>tchar = asc ''?'', tvalue = 0, isBlank = True, displayChar = asc ''?''\<rparr>
         else \<lparr>tchar = ch,
               tvalue = (if blank then 0 else lookupOr LETTER_VALUES upperChar 0),
               isBlank = blank,
               displayChar = disp\<rparr>)"

text \<open>
  \<open>internalToDisplayWord\<close>: every code unit of the word is looked up in
  \<open>REVERSE_DIGRAPH_MAP\<close> as it stands (the key is not upper-cased), and kept when the
  table has no entry for it.
\<close>

definition internalToDisplayWord :: "jsstring \<Rightarrow> jsstring" where
  "internalToDisplayWord word =
     concat (map (\<lambda>u. lookupOr REVERSE_DIGRAPH_MAP [u] [u]) word)"

text \<open>
  \<open>parseInputWord\<close>: the loop over the input, greedy and left to right. At position
  \<open>i\<close> the source reads \<open>threeChars\<close> and \<open>twoChars\<close> (shorter at the end of the
  input); here \<open>ch # rest\<close> is the input from \<open>i\<close> on, and \<open>i += 3\<close>, \<open>i += 2\<close> and
  \<open>i += 1\<close> go on with \<open>drop 2 rest\<close>, \<open>drop 1 rest\<close> and \<open>rest\<close>.
\<close>

function parseInputWord :: "jsstring \<Rightarrow> Tile list" where
  "parseInputWord [] = []"
| "parseInputWord (ch # rest) =
     (let threeChars = take 3 (ch # rest); twoChars = take 2 (ch # rest)
      in if toUpperCase threeChars \<in> {[76, 183, 76], asc ''L.L'', asc ''L-L''}
         then createTile (if [ch] = toLowerCase [ch] then [322] else [321])
                # parseInputWord (drop 2 rest)
         else if toUpperCase twoChars \<in> {asc ''QU'', asc ''NY''}
                 \<and> map_of DIGRAPH_MAP (toUpperCase twoChars) \<noteq> None
         then (let mapped = the (map_of DIGRAPH_MAP (toUpperCase twoChars))
               in createTile (if [ch] = toLowerCase [ch] then toLowerCase mapped else mapped)
                    # parseInputWord (drop 1 rest))
         else if toUpperCase [ch] = asc ''Q''
         then createTile (if [ch] = asc ''q'' then [251] else [219]) # parseInputWord rest
         else createTile [ch] # parseInputWord rest)"
  by pat_completeness auto
termination
  by (relation "measure length") auto

declare parseInputWord.simps [simp del]

text \<open>
  The display form of a tile sequence: the internal symbols of the tiles, joined, and
  rendered by \<open>internalToDisplayWord\<close>.
\<close>

definition tilesDisplayForm :: "Tile list \<Rightarrow> jsstring" where
  "tilesDisplayForm ts = internalToDisplayWord (concat (map tchar ts))"

section \<open>The dictionary (scrabbleUtils.ts)\<close>

text \<open>
  A node as \<open>FrozenTrie.getNodeByIndex\<close> decodes it. The succinct encoding behind it
  (\<open>BitString\<close>, \<open>RankDirectory\<close>, rank and select over the base-64 payload) is not
  modelled: a trie is represented by its node table, the function \<open>getNodeByIndex\<close>.
  A node's \<open>childCount\<close> is a count, a natural number. Everything above the node
  table (\<open>getRoot\<close>, \<open>getChild\<close>, \<open>lookup\<close>) is modelled from the source.
\<close>

record FrozenTrieNode =
  index :: int
  letter :: jsstring
  final :: bool
  firstChild :: int
  childCount :: nat

datatype FrozenTrie = FrozenTrie (getNodeByIndex: "int \<Rightarrow> FrozenTrieNode")

definition getRoot :: "FrozenTrie \<Rightarrow> FrozenTrieNode" where
  "getRoot trie = getNodeByIndex trie 0"

definition getChild :: "FrozenTrie \<Rightarrow> FrozenTrieNode \<Rightarrow> nat \<Rightarrow> FrozenTrieNode" where
  "getChild trie node i = getNodeByIndex trie (firstChild node + int i)"

text \<open>
  The search loop that \<open>lookup\<close> and the move finder share: the first child, in child
  order, whose letter is the one asked for.
\<close>

definition findChild :: "FrozenTrie \<Rightarrow> FrozenTrieNode \<Rightarrow> jsstring \<Rightarrow> FrozenTrieNode option" where
  "findChild trie node ltr =
     find (\<lambda>child. letter child = ltr) (map (getChild trie node) [0..<childCount node])"

fun lookupFrom :: "FrozenTrie \<Rightarrow> FrozenTrieNode \<Rightarrow> jsstring \<Rightarrow> bool" where
  "lookupFrom trie node [] = final node"
| "lookupFrom trie node (u # word) =
     (case findChild trie node [u] of
        None \<Rightarrow> False
      | Some child \<Rightarrow> lookupFrom trie child word)"

text \<open>
  The same two equations with the test before the descent, for evaluation: the child is
  looked at only once it is known to exist.
\<close>

lemma lookupFrom_code [code]:
  "lookupFrom trie node [] = final node"
  "lookupFrom trie node (u # word) =
     (if findChild trie node [u] = None then False
      else lookupFrom trie (the (findChild trie node [u])) word)"
  by (auto split: option.splits)

definition lookup :: "FrozenTrie \<Rightarrow> jsstring \<Rightarrow> bool" where
  "lookup trie word = lookupFrom trie (getRoot trie) word"

subsection \<open>String operations of validateWord\<close>

text \<open>
  \<open>String.prototype.trim\<close> removes the white space and line terminators of ECMAScript
  from both ends.
\<close>

definition isWhiteSpace :: "int \<Rightarrow> bool" where
  "isWhiteSpace u =
     ((9 \<le> u \<and> u \<le> 13) \<or> u = 32 \<or> u = 160 \<or> u = 5760 \<or> (8192 \<le> u \<and> u \<le> 8202)
      \<or> u = 8232 \<or> u = 8233 \<or> u = 8239 \<or> u = 8287 \<or> u = 12288 \<or> u = 65279)"

definition trim :: "jsstring \<Rightarrow> jsstring" where
  "trim s = rev (dropWhile isWhiteSpace (rev (dropWhile isWhiteSpace s)))"

text \<open>
  \<open>s.normalize("NFD")\<close> followed by the removal of the combining marks U+0300 to
  U+036F, per code unit. An accented letter of the Latin-1 Supplement (and U+0178) is
  left as its base letter, a combining mark disappears, and any other code unit is
  kept. This is what JavaScript computes for the units of the alphabet \<open>inAlphabet\<close> and
  for what upper-casing makes of them; the decompositions of other units are not
  modelled.
\<close>

definition stripDiacriticsUnit :: "int \<Rightarrow> jsstring" where
  "stripDiacriticsUnit u =
     (if 768 \<le> u \<and> u \<le> 879 then []
      else if 192 \<le> u \<and> u \<le> 197 then [65]
      else if u = 199 then [67]
      else if 200 \<le> u \<and> u \<le> 203 then [69]
      else if 204 \<le> u \<and> u \<le> 207 then [73]
      else if u = 209 then [78]
      else if 210 \<le> u \<and> u \<le> 214 then [79]
      else if 217 \<le> u \<and> u \<le> 220 then [85]
      else if u = 221 \<or> u = 376 then [89]
      else if 224 \<le> u \<and> u \<le> 229 then [97]
      else if u = 231 then [99]
      else if 232 \<le> u \<and> u \<le> 235 then [101]
      else if 236 \<le> u \<and> u \<le> 239 then [105]
      else if u = 241 then [110]
      else if 242 \<le> u \<and> u \<le> 246 then [111]
      else if 249 \<le> u \<and> u \<le> 252 then [117]
      else if u = 253 \<or> u = 255 then [121]
      else [u])"

definition stripDiacritics :: "jsstring \<Rightarrow> jsstring" where
  "stripDiacritics s = concat (map stripDiacriticsUnit s)"

text \<open>
  \<open>s.replace(/p1|p2|.../g, rep)\<close> for literal alternatives: scanning from the left, at
  each position the first alternative that matches there is replaced and the scan goes
  on behind the match; where none matches, the code unit is kept.
\<close>

function replaceAll :: "jsstring list \<Rightarrow> jsstring \<Rightarrow> jsstring \<Rightarrow> jsstring" where
  "replaceAll pats rep [] = []"
| "replaceAll pats rep (u # rest) =
     (case find (\<lambda>p. p \<noteq> [] \<and> take (length p) (u # rest) = p) pats of
        Some p \<Rightarrow> rep @ replaceAll pats rep (drop (length p) (u # rest))
      | None \<Rightarrow> u # replaceAll pats rep rest)"
  by pat_completeness auto
termination
  by (relation "measure (\<lambda>(pats, rep, s). length s)") (auto simp add: find_Some_iff)

declare replaceAll.simps [simp del]

text \<open>\<open>/Q(?!U)/.test(s)\<close>: some Q that is not followed by a U.\<close>

fun hasQWithoutU :: "jsstring \<Rightarrow> bool" where
  "hasQWithoutU [] = False"
| "hasQWithoutU (u # rest) =
     ((u = 81 \<and> (case rest of [] \<Rightarrow> True | n # _ \<Rightarrow> n \<noteq> 85)) \<or> hasQWithoutU rest)"

text \<open>
  \<open>validateWord\<close>. The module variable \<open>trieInstance\<close> that \<open>getTrie()\<close> reads is the
  first argument: \<open>None\<close> when no dictionary is loaded.
\<close>

fun validateWord :: "FrozenTrie option \<Rightarrow> jsstring \<Rightarrow> bool" where
  "validateWord None word = True"
| "validateWord (Some trie) word =
     (let normalized = toUpperCase (trim word);
          normalized = replaceAll [[199]] (asc ''1'') normalized;
          normalized = stripDiacritics normalized
      in if hasQWithoutU normalized then False
         else
           (let normalized = replaceAll [[76, 183, 76], asc ''L.L'', asc ''L-L'', [319, 76]]
                               (asc ''2'') normalized;
                normalized = replaceAll [asc ''QU''] (asc ''Q'') normalized;
                normalized = replaceAll [asc ''NY''] (asc ''3'') normalized;
                normalized = replaceAll [[183], asc ''.''] [] normalized
            in lookup trie normalized))"

section \<open>The board and the move validator (scrabbleUtils.ts)\<close>

record BoardCell =
  row :: int
  col :: int
  multiplier :: MultiplierType
  tile :: "Tile option"

text \<open>
  The board is the fixed 15 by 15 grid \<open>board[r][c]\<close>, a function of the two indices
  that is read only inside the grid. Reading \<open>board[r][c]\<close> with an index outside
  0..14 gives \<open>undefined\<close> in JavaScript, and the next property access on it throws a
  TypeError: \<open>cellAt\<close> returns \<open>None\<close> there, and the functions below that read a cell
  without a bounds check of their own return \<open>None\<close> for the thrown exception.
\<close>

type_synonym Board = "nat \<Rightarrow> nat \<Rightarrow> BoardCell"

definition BOARD_SIZE :: int where
  "BOARD_SIZE = 15"

definition cellAt :: "Board \<Rightarrow> int \<Rightarrow> int \<Rightarrow> BoardCell option" where
  "cellAt board r c =
     (if 0 \<le> r \<and> r < 15 \<and> 0 \<le> c \<and> c < 15 then Some (board (nat r) (nat c)) else None)"

text \<open>
  The guarded read
  \<open>r >= 0 && c >= 0 && r < BOARD_SIZE && c < BOARD_SIZE && board[r][c].tile\<close>.
\<close>

definition hasTileAt :: "Board \<Rightarrow> int \<Rightarrow> int \<Rightarrow> bool" where
  "hasTileAt board r c =
     (r \<ge> 0 \<and> c \<ge> 0 \<and> r < BOARD_SIZE \<and> c < BOARD_SIZE \<and> tile (board (nat r) (nat c)) \<noteq> None)"

definition TRIPLE_WORD_COORDS :: "(nat \<times> nat) list" where
  "TRIPLE_WORD_COORDS = [(0,0), (0,7), (0,14), (7,0), (7,14), (14,0), (14,7), (14,14)]"

definition DOUBLE_WORD_COORDS :: "(nat \<times> nat) list" where
  "DOUBLE_WORD_COORDS =
     [(1,1), (1,13), (2,2), (2,12), (3,3), (3,11), (4,4), (4,10),
      (10,4), (10,10), (11,3), (11,11), (12,2), (12,12), (13,1), (13,13)]"

definition TRIPLE_LETTER_COORDS :: "(nat \<times> nat) list" where
  "TRIPLE_LETTER_COORDS =
     [(1,5), (1,9), (5,1), (5,5), (5,9), (5,13), (9,1), (9,5), (9,9), (9,13), (13,5), (13,9)]"

definition DOUBLE_LETTER_COORDS :: "(nat \<times> nat) list" where
  "DOUBLE_LETTER_COORDS =
     [(0,3), (0,11), (2,6), (2,8), (3,0), (3,7), (3,14), (6,2), (6,6), (6,8), (6,12),
      (7,3), (7,11), (8,2), (8,6), (8,8), (8,12), (11,0), (11,7), (11,14), (12,6), (12,8),
      (14,3), (14,11)]"

definition createInitialBoard :: Board where
  "createInitialBoard = (\<lambda>r c.
     \<lparr>row = int r, col = int c,
      multiplier =
        (if r = 7 \<and> c = 7 then Center
         else if List.member TRIPLE_WORD_COORDS (r, c) then TripleWord
         else if List.member DOUBLE_WORD_COORDS (r, c) then DoubleWord
         else if List.member TRIPLE_LETTER_COORDS (r, c) then TripleLetter
         else if List.member DOUBLE_LETTER_COORDS (r, c) then DoubleLetter
         else Normal),
      tile = None\<rparr>)"

datatype Direction = DirH | DirV

text \<open>
  \<open>dr\<close> and \<open>dc\<close> of a direction, and the perpendicular direction
  (\<open>crossDr\<close>, \<open>crossDc\<close>).
\<close>

definition drOf :: "Direction \<Rightarrow> int" where
  "drOf d = (if d = DirH then 0 else 1)"

definition dcOf :: "Direction \<Rightarrow> int" where
  "dcOf d = (if d = DirH then 1 else 0)"

definition crossOf :: "Direction \<Rightarrow> Direction" where
  "crossOf d = (if d = DirH then DirV else DirH)"

text \<open>
  The rejection messages of \<open>calculateMoveScore\<close> (Catalan texts in the source), one
  constructor per message, with the values the message interpolates.
\<close>

datatype ScoreError =
    OutOfBounds
  | CellConflict int int jsstring jsstring
  | MissingBlank jsstring
  | MissingRackLetter jsstring
  | MissingCenter
  | TooShortFirstMove
  | NotConnected
  | InvalidWord jsstring

record ScoreResult =
  score :: int
  isValid :: bool
  error :: "ScoreError option"

definition reject :: "ScoreError \<Rightarrow> ScoreResult" where
  "reject e = \<lparr>score = 0, isValid = False, error = Some e\<rparr>"

definition getMultiplierVal :: "MultiplierType \<Rightarrow> bool \<Rightarrow> int" where
  "getMultiplierVal ty isWord =
     (if isWord
      then (if ty = DoubleWord \<or> ty = Center then 2 else if ty = TripleWord then 3 else 1)
      else (if ty = DoubleLetter then 2 else if ty = TripleLetter then 3 else 1))"

text \<open>
  \<open>newTilesMap\<close>: the candidate's tiles keyed by their cell. The source keys the object
  by the string \<open>"r,c"\<close>; the key is the pair here. A later assignment to a key
  replaces an earlier one.
\<close>

type_synonym NewTiles = "((int \<times> int) \<times> Tile) list"

definition newTilesMap :: "Tile list \<Rightarrow> int \<Rightarrow> int \<Rightarrow> Direction \<Rightarrow> NewTiles" where
  "newTilesMap tiles startRow startCol d =
     map (\<lambda>(i, t). ((startRow + int i * drOf d, startCol + int i * dcOf d), t)) (enumerate 0 tiles)"

definition newTileAt :: "NewTiles \<Rightarrow> int \<times> int \<Rightarrow> Tile option" where
  "newTileAt m k = map_of (rev m) k"

text \<open>A lower bound of \<open>r + c\<close> over the grid and the keys of the map.\<close>

fun keyBound :: "NewTiles \<Rightarrow> int" where
  "keyBound [] = 0"
| "keyBound (((r, c), t) # m) = min (r + c) (keyBound m)"

lemma keyBound_le_0: "keyBound m \<le> 0"
  by (induction m rule: keyBound.induct) auto

lemma keyBound_le_key: "((r, c), t) \<in> set m \<Longrightarrow> keyBound m \<le> r + c"
  by (induction m rule: keyBound.induct) auto

lemma newTileAt_keyBound: "newTileAt m (r, c) \<noteq> None \<Longrightarrow> keyBound m \<le> r + c"
proof -
  assume "newTileAt m (r, c) \<noteq> None"
  then obtain t where "map_of (rev m) (r, c) = Some t"
    by (auto simp add: newTileAt_def)
  then have "((r, c), t) \<in> set m"
    using map_of_SomeD by fastforce
  then show ?thesis by (rule keyBound_le_key)
qed

lemma dr_dc_sum: "drOf d + dcOf d = 1"
  by (simp add: drOf_def dcOf_def)

text \<open>
  \<open>getFullWordString\<close>. The source passes the step \<open>(dr, dc)\<close>, which is \<open>(0, 1)\<close> or
  \<open>(1, 0)\<close> at both of its call sites; here the direction is passed and the step is
  read from it. First loop: scan backwards to the start of the word.
\<close>

function wordStart :: "Board \<Rightarrow> NewTiles \<Rightarrow> int \<Rightarrow> int \<Rightarrow> Direction \<Rightarrow> int \<times> int" where
  "wordStart board m currR currC d =
     (let prevR = currR - drOf d; prevC = currC - dcOf d
      in if hasTileAt board prevR prevC \<or> newTileAt m (prevR, prevC) \<noteq> None
         then wordStart board m prevR prevC d
         else (currR, currC))"
  by pat_completeness auto
termination
proof (relation "measure (\<lambda>(board, m, r, c, d). nat (r + c - keyBound m))", goal_cases)
  case 1
  show ?case by simp
next
  case (2 board m currR currC d prevR prevC)
  have "keyBound m \<le> prevR + prevC"
    using 2(3) keyBound_le_0[of m] newTileAt_keyBound[of m prevR prevC]
    by (auto simp add: hasTileAt_def)
  moreover have "prevR + prevC = currR + currC - 1"
    using 2(1,2) dr_dc_sum[of d] by simp
  ultimately show ?case by simp
qed

declare wordStart.simps [simp del]

text \<open>Second loop: scan forwards collecting the display characters.\<close>

function collectWord :: "Board \<Rightarrow> NewTiles \<Rightarrow> int \<Rightarrow> int \<Rightarrow> Direction \<Rightarrow> jsstring \<Rightarrow> jsstring" where
  "collectWord board m currR currC d word =
     (if currR \<ge> 0 \<and> currC \<ge> 0 \<and> currR < BOARD_SIZE \<and> currC < BOARD_SIZE
      then (case tile (board (nat currR) (nat currC)) of
              Some boardTile \<Rightarrow>
                collectWord board m (currR + drOf d) (currC + dcOf d) d (word @ displayChar boardTile)
            | None \<Rightarrow>
                (case newTileAt m (currR, currC) of
                   Some newTile \<Rightarrow>
                     collectWord board m (currR + drOf d) (currC + dcOf d) d (word @ displayChar newTile)
                 | None \<Rightarrow> word))
      else word)"
  by pat_completeness auto
termination
  by (relation "measure (\<lambda>(board, m, r, c, d, word). nat (2 * BOARD_SIZE - (r + c)))")
     (auto simp add: BOARD_SIZE_def drOf_def dcOf_def)

declare collectWord.simps [simp del]

definition getFullWordString :: "Board \<Rightarrow> NewTiles \<Rightarrow> int \<Rightarrow> int \<Rightarrow> Direction \<Rightarrow> jsstring" where
  "getFullWordString board m startR startC d =
     (case wordStart board m startR startC d of
        (currR, currC) \<Rightarrow> collectWord board m currR currC d [])"

text \<open>
  The two scans of the cross-word score: the face values of the board tiles met from a
  cell on, backwards and forwards along a direction, up to the first empty cell or the
  edge. The source adds them to \<open>crossWordScore\<close> one by one; the functions return
  their sum.
\<close>

function sumTilesBack :: "Board \<Rightarrow> int \<Rightarrow> int \<Rightarrow> Direction \<Rightarrow> int" where
  "sumTilesBack board currR currC d =
     (if currR \<ge> 0 \<and> currC \<ge> 0 \<and> currR < BOARD_SIZE \<and> currC < BOARD_SIZE
      then (case tile (board (nat currR) (nat currC)) of
              Some t \<Rightarrow> tvalue t + sumTilesBack board (currR - drOf d) (currC - dcOf d) d
            | None \<Rightarrow> 0)
      else 0)"
  by pat_completeness auto
termination
  by (relation "measure (\<lambda>(board, r, c, d). nat (r + c + 1))")
     (auto simp add: drOf_def dcOf_def)

declare sumTilesBack.simps [simp del]

function sumTilesForward :: "Board \<Rightarrow> int \<Rightarrow> int \<Rightarrow> Direction \<Rightarrow> int" where
  "sumTilesForward board currR currC d =
     (if currR \<ge> 0 \<and> currC \<ge> 0 \<and> currR < BOARD_SIZE \<and> currC < BOARD_SIZE
      then (case tile (board (nat currR) (nat currC)) of
              Some t \<Rightarrow> tvalue t + sumTilesForward board (currR + drOf d) (currC + dcOf d) d
            | None \<Rightarrow> 0)
      else 0)"
  by pat_completeness auto
termination
  by (relation "measure (\<lambda>(board, r, c, d). nat (2 * BOARD_SIZE - (r + c)))")
     (auto simp add: BOARD_SIZE_def drOf_def dcOf_def)

declare sumTilesForward.simps [simp del]

text \<open>The local variables of \<open>calculateMoveScore\<close> that its loop over the tiles updates.\<close>

record LoopState =
  totalScore :: int
  mainWordScore :: int
  mainWordMultiplier :: int
  tilesUsedFromRack :: int
  rackAvailable :: "jsstring list"
  allWordsValid :: bool
  invalidWordError :: jsstring
  touchesExisting :: bool
  touchesCenter :: bool

text \<open>
  One pass through the loop body ends in the next iteration, in a \<open>return\<close>, or in a
  thrown TypeError.
\<close>

datatype StepResult = Continue LoopState | Return ScoreResult | Throw

text \<open>
  The rack check: \<open>indexOf\<close> and \<open>splice\<close> of the letter, else of the joker \<open>?\<close>.
\<close>

definition takeFromRack :: "jsstring list \<Rightarrow> jsstring \<Rightarrow> jsstring list option" where
  "takeFromRack rack ch =
     (if ch \<in> set rack then Some (remove1 ch rack)
      else if asc ''?'' \<in> set rack then Some (remove1 (asc ''?'') rack)
      else None)"

text \<open>The branch of the loop body for a cell that holds no tile yet.\<close>

definition placeNewTile ::
  "FrozenTrie option \<Rightarrow> Board \<Rightarrow> NewTiles \<Rightarrow> Direction \<Rightarrow> int \<Rightarrow> int \<Rightarrow> BoardCell \<Rightarrow> Tile
     \<Rightarrow> LoopState \<Rightarrow> StepResult" where
  "placeNewTile trieInstance board m d r c cell t st0 =
     (let st1 = st0\<lparr>touchesExisting := touchesExisting st0
                       \<or> hasTileAt board (r - 1) c \<or> hasTileAt board (r + 1) c
                       \<or> hasTileAt board r (c - 1) \<or> hasTileAt board r (c + 1)\<rparr>
      in case takeFromRack (rackAvailable st1) (toUpperCase (tchar t)) of
           None \<Rightarrow>
             Return (reject (if isBlank t then MissingBlank (displayChar t)
                             else MissingRackLetter (displayChar t)))
         | Some rack' \<Rightarrow>
             (let letterVal = tvalue t * getMultiplierVal (multiplier cell) False;
                  wordMult = getMultiplierVal (multiplier cell) True;
                  st2 = st1\<lparr>rackAvailable := rack',
                            tilesUsedFromRack := tilesUsedFromRack st1 + 1,
                            mainWordScore := mainWordScore st1 + letterVal,
                            mainWordMultiplier := mainWordMultiplier st1 * wordMult\<rparr>;
                  cd = crossOf d;
                  prevR = r - drOf cd; prevC = c - dcOf cd;
                  nextR = r + drOf cd; nextC = c + dcOf cd
              in if hasTileAt board prevR prevC \<or> hasTileAt board nextR nextC
                 then (let crossWordStr = getFullWordString board m r c cd;
                           st3 = (if \<not> validateWord trieInstance crossWordStr
                                  then st2\<lparr>allWordsValid := False, invalidWordError := crossWordStr\<rparr>
                                  else st2);
                           crossWordScore = letterVal + sumTilesBack board prevR prevC cd
                                              + sumTilesForward board nextR nextC cd
                       in Continue (st3\<lparr>totalScore := totalScore st3 + crossWordScore * wordMult\<rparr>))
                 else Continue st2))"

text \<open>The loop body for \<open>tiles[i]\<close>.\<close>

definition scoreTile ::
  "FrozenTrie option \<Rightarrow> Board \<Rightarrow> NewTiles \<Rightarrow> int \<Rightarrow> int \<Rightarrow> Direction \<Rightarrow> nat \<Rightarrow> Tile
     \<Rightarrow> LoopState \<Rightarrow> StepResult" where
  "scoreTile trieInstance board m startRow startCol d i t st =
     (let r = startRow + int i * drOf d; c = startCol + int i * dcOf d
      in if r \<ge> BOARD_SIZE \<or> c \<ge> BOARD_SIZE then Return (reject OutOfBounds)
         else
           (let st0 = st\<lparr>touchesCenter := touchesCenter st \<or> (r = 7 \<and> c = 7)\<rparr>
            in case cellAt board r c of
                 None \<Rightarrow> Throw
               | Some cell \<Rightarrow>
                   (case tile cell of
                      Some existing \<Rightarrow>
                        if toUpperCase (tchar existing) \<noteq> toUpperCase (tchar t)
                        then Return (reject (CellConflict r c (displayChar existing) (displayChar t)))
                        else Continue (st0\<lparr>mainWordScore := mainWordScore st0 + tvalue existing,
                                            touchesExisting := True\<rparr>)
                    | None \<Rightarrow> placeNewTile trieInstance board m d r c cell t st0)))"

fun scoreTiles ::
  "FrozenTrie option \<Rightarrow> Board \<Rightarrow> NewTiles \<Rightarrow> int \<Rightarrow> int \<Rightarrow> Direction \<Rightarrow> (nat \<times> Tile) list
     \<Rightarrow> LoopState \<Rightarrow> StepResult" where
  "scoreTiles trieInstance board m startRow startCol d [] st = Continue st"
| "scoreTiles trieInstance board m startRow startCol d ((i, t) # rest) st =
     (case scoreTile trieInstance board m startRow startCol d i t st of
        Continue st' \<Rightarrow> scoreTiles trieInstance board m startRow startCol d rest st'
      | Return res \<Rightarrow> Return res
      | Throw \<Rightarrow> Throw)"

definition isBoardEmpty :: "Board \<Rightarrow> bool" where
  "isBoardEmpty board =
     list_all (\<lambda>r. list_all (\<lambda>c. tile (board r c) = None) [0..<15]) [0..<15]"

text \<open>What follows the loop: the placement rules, the dictionary verdict, the score.\<close>

definition finishMove :: "bool \<Rightarrow> nat \<Rightarrow> LoopState \<Rightarrow> ScoreResult" where
  "finishMove boardEmpty nTiles st =
     (if boardEmpty \<and> \<not> touchesCenter st then reject MissingCenter
      else if boardEmpty \<and> nTiles < 2 then reject TooShortFirstMove
      else if \<not> boardEmpty \<and> \<not> touchesExisting st then reject NotConnected
      else if \<not> allWordsValid st then reject (InvalidWord (invalidWordError st))
      else \<lparr>score = totalScore st + mainWordScore st * mainWordMultiplier st
                      + (if tilesUsedFromRack st = 7 then 50 else 0),
            isValid = True, error = None\<rparr>)"

text \<open>
  \<open>calculateMoveScore\<close>. The result is \<open>None\<close> when the call throws instead of
  returning. The main word is validated before the loop when it is longer than one
  code unit.
\<close>

definition initialState :: "FrozenTrie option \<Rightarrow> jsstring list \<Rightarrow> jsstring \<Rightarrow> LoopState" where
  "initialState trieInstance currentRack mainWordStr =
     (let bad = (length mainWordStr > 1 \<and> \<not> validateWord trieInstance mainWordStr)
      in \<lparr>totalScore = 0, mainWordScore = 0, mainWordMultiplier = 1, tilesUsedFromRack = 0,
          rackAvailable = currentRack,
          allWordsValid = (\<not> bad),
          invalidWordError = (if bad then mainWordStr else []),
          touchesExisting = False, touchesCenter = False\<rparr>)"

definition calculateMoveScore ::
  "FrozenTrie option \<Rightarrow> Board \<Rightarrow> Tile list \<Rightarrow> jsstring list \<Rightarrow> int \<Rightarrow> int \<Rightarrow> Direction
     \<Rightarrow> ScoreResult option" where
  "calculateMoveScore trieInstance board tiles currentRack startRow startCol d =
     (let m = newTilesMap tiles startRow startCol d;
          mainWordStr = getFullWordString board m startRow startCol d
      in case scoreTiles trieInstance board m startRow startCol d (enumerate 0 tiles)
                (initialState trieInstance currentRack mainWordStr) of
           Throw \<Rightarrow> None
         | Return res \<Rightarrow> Some res
         | Continue st \<Rightarrow> Some (finishMove (isBoardEmpty board) (length tiles) st))"

section \<open>The best-move finder (moveFinder.ts)\<close>

text \<open>
  The fields of \<open>PlayerMove\<close> that the finder computes and its callers read, with the
  prefix \<open>m\<close>. The bookkeeping fields (\<open>id\<close>, \<open>playerId\<close>, \<open>playerName\<close>,
  \<open>tableNumber\<close>, \<open>timestamp\<close>, \<open>roundNumber\<close>) are constants or come from the clock
  and the random generator; nothing below reads them, and they are left out. An
  optional field that is not set is \<open>None\<close>.
\<close>

record PlayerMove =
  mword :: jsstring
  mtiles :: "Tile list"
  mrow :: int
  mcol :: int
  mdirection :: Direction
  mscore :: "int option"
  misValid :: "bool option"
  merror :: "ScoreError option"

definition INTERNAL_TO_TRIE :: "(jsstring \<times> jsstring) list" where
  "INTERNAL_TO_TRIE = [([199], asc ''1''), ([321], asc ''2''), ([221], asc ''3''), ([219], asc ''Q'')]"

definition TRIE_TO_INTERNAL :: "(jsstring \<times> jsstring) list" where
  "TRIE_TO_INTERNAL = [(asc ''1'', [199]), (asc ''2'', [321]), (asc ''3'', [221]), (asc ''Q'', [219])]"

definition TRIE_ALPHABET :: "jsstring list" where
  "TRIE_ALPHABET = map (\<lambda>u. [u]) (asc ''ABCDEFGHIJKLMNOPQRSTUVWXYZ123'')"

definition getTrieChar :: "jsstring \<Rightarrow> jsstring" where
  "getTrieChar internalChar =
     (let upper = toUpperCase internalChar in lookupOr INTERNAL_TO_TRIE upper upper)"

definition getInternalChar :: "jsstring \<Rightarrow> bool \<Rightarrow> jsstring" where
  "getInternalChar trieChar blank =
     (let base = lookupOr TRIE_TO_INTERNAL trieChar trieChar
      in if blank then toLowerCase base else base)"

subsection \<open>addMove\<close>

text \<open>
  The tiles of a generated word, cell by cell from column \<open>c\<close> on: the board's tile
  where the cell holds one, a new tile otherwise, and the number of new tiles. The
  result is \<open>None\<close> when a cell outside the grid is read (a TypeError in the source).
\<close>

fun wordTiles :: "Board \<Rightarrow> int \<Rightarrow> int \<Rightarrow> jsstring \<Rightarrow> (Tile list \<times> nat) option" where
  "wordTiles board r c [] = Some ([], 0)"
| "wordTiles board r c (u # w) =
     (case cellAt board r c of
        None \<Rightarrow> None
      | Some cell \<Rightarrow>
          (case wordTiles board r (c + 1) w of
             None \<Rightarrow> None
           | Some (ts, n) \<Rightarrow>
               (case tile cell of
                  Some t \<Rightarrow> Some (t # ts, n)
                | None \<Rightarrow> Some (createTile [u] # ts, n + 1))))"

definition addMove ::
  "Board \<Rightarrow> int \<Rightarrow> int \<Rightarrow> jsstring \<Rightarrow> PlayerMove list \<Rightarrow> Direction \<Rightarrow> PlayerMove list option" where
  "addMove board rowParam endColParam wordStrInternal results d =
     (let startColIndex = endColParam - int (length wordStrInternal);
          moveRow = (if d = DirH then rowParam else startColIndex);
          moveCol = (if d = DirH then startColIndex else rowParam)
      in case wordTiles board rowParam startColIndex wordStrInternal of
           None \<Rightarrow> None
         | Some (tiles, newTilesCount) \<Rightarrow>
             if newTilesCount = 0 then Some results
             else Some (results @ [\<lparr>mword = wordStrInternal, mtiles = tiles, mrow = moveRow,
                                     mcol = moveCol, mdirection = d, mscore = None,
                                     misValid = None, merror = None\<rparr>]))"

subsection \<open>Cross-checks and anchors\<close>

text \<open>
  The internal symbol of the tile on a cell. It is read only for cells that the scan
  before it found occupied (the source writes \<open>tile!.char\<close>).
\<close>

definition tileCharAt :: "Board \<Rightarrow> nat \<Rightarrow> nat \<Rightarrow> jsstring" where
  "tileCharAt board r c = (case tile (board r c) of Some t \<Rightarrow> tchar t | None \<Rightarrow> [])"

function scanUp :: "Board \<Rightarrow> nat \<Rightarrow> int \<Rightarrow> int" where
  "scanUp board c up =
     (if up \<ge> 0 \<and> hasTileAt board up (int c) then scanUp board c (up - 1) else up)"
  by pat_completeness auto
termination
  by (relation "measure (\<lambda>(board, c, up). nat (up + 1))") auto

declare scanUp.simps [simp del]

function scanDown :: "Board \<Rightarrow> nat \<Rightarrow> int \<Rightarrow> int" where
  "scanDown board c down =
     (if down < BOARD_SIZE \<and> hasTileAt board down (int c) then scanDown board c (down + 1) else down)"
  by pat_completeness auto
termination
  by (relation "measure (\<lambda>(board, c, down). nat (BOARD_SIZE - down))") (auto simp add: BOARD_SIZE_def)

declare scanDown.simps [simp del]

text \<open>
  One entry of \<open>computeCrossChecks\<close>: \<open>None\<close> for \<open>null\<close> (the cell is occupied, or has
  no tile above or below it), else the letters of the trie alphabet that make a word
  with the tiles above and below.
\<close>

definition crossCheckAt :: "Board \<Rightarrow> FrozenTrie \<Rightarrow> nat \<Rightarrow> nat \<Rightarrow> jsstring list option" where
  "crossCheckAt board trie r c =
     (if tile (board r c) \<noteq> None then None
      else
        (let up = scanUp board c (int r - 1) + 1;
             down = scanDown board c (int r + 1) - 1
         in if up = int r \<and> down = int r then None
            else
              (let prefix = concat (map (\<lambda>k. getTrieChar (tileCharAt board k c)) [nat up..<r]);
                   suffix = concat (map (\<lambda>k. getTrieChar (tileCharAt board k c)) [r + 1..<nat down + 1])
               in Some (filter (\<lambda>trieChar. lookup trie (prefix @ trieChar @ suffix)) TRIE_ALPHABET))))"

definition computeCrossChecks :: "Board \<Rightarrow> FrozenTrie \<Rightarrow> nat \<Rightarrow> nat \<Rightarrow> jsstring list option" where
  "computeCrossChecks board trie = (\<lambda>r c. crossCheckAt board trie r c)"

definition findAnchors :: "Board \<Rightarrow> bool \<Rightarrow> (nat \<times> nat) list" where
  "findAnchors board boardEmpty =
     (if boardEmpty then [(7, 7)]
      else concat (map (\<lambda>r. concat (map (\<lambda>c.
             if tile (board r c) \<noteq> None then []
             else if (r > 0 \<and> tile (board (r - 1) c) \<noteq> None)
                     \<or> (r < 14 \<and> tile (board (r + 1) c) \<noteq> None)
                     \<or> (c > 0 \<and> tile (board r (c - 1)) \<noteq> None)
                     \<or> (c < 14 \<and> tile (board r (c + 1)) \<noteq> None)
             then [(r, c)] else []) [0..<15])) [0..<15]))"

subsection \<open>extendRight and leftPart\<close>

text \<open>
  The recursion of \<open>extendRight\<close>, with its loop over the children of the trie node as
  a second function (\<open>i\<close> is the loop index; \<open>r\<close> and \<open>c\<close> are the source's \<open>row\<close> and
  \<open>col\<close>). \<open>results\<close> is the array the source
  appends to, passed in and returned; \<open>None\<close> is a TypeError thrown by \<open>addMove\<close> or
  by the read of a cell outside the grid.
\<close>

function extendRight ::
  "FrozenTrie \<Rightarrow> Board \<Rightarrow> int \<Rightarrow> int \<Rightarrow> jsstring \<Rightarrow> FrozenTrieNode \<Rightarrow> jsstring list
     \<Rightarrow> (nat \<Rightarrow> nat \<Rightarrow> jsstring list option) \<Rightarrow> PlayerMove list \<Rightarrow> Direction
     \<Rightarrow> PlayerMove list option"
and extendRightLoop ::
  "FrozenTrie \<Rightarrow> Board \<Rightarrow> int \<Rightarrow> int \<Rightarrow> jsstring \<Rightarrow> FrozenTrieNode \<Rightarrow> jsstring list
     \<Rightarrow> (nat \<Rightarrow> nat \<Rightarrow> jsstring list option) \<Rightarrow> PlayerMove list \<Rightarrow> Direction \<Rightarrow> nat
     \<Rightarrow> PlayerMove list option"
where
  "extendRight trie board r c partialWordInternal node rack crossChecks results d =
     (if c \<ge> BOARD_SIZE
      then (if final node then addMove board r c partialWordInternal results d
            else Some results)
      else
        (case cellAt board r c of
           None \<Rightarrow> None
         | Some cell \<Rightarrow>
             (case tile cell of
                Some existing \<Rightarrow>
                  (case findChild trie node (getTrieChar (tchar existing)) of
                     None \<Rightarrow> Some results
                   | Some childNode \<Rightarrow>
                       extendRight trie board r (c + 1) (partialWordInternal @ tchar existing)
                         childNode rack crossChecks results d)
              | None \<Rightarrow>
                  (case (if final node then addMove board r c partialWordInternal results d
                         else Some results) of
                     None \<Rightarrow> None
                   | Some results' \<Rightarrow>
                       extendRightLoop trie board r c partialWordInternal node rack
                         crossChecks results' d 0))))"
| "extendRightLoop trie board r c partialWordInternal node rack crossChecks results d i =
     (if i < childCount node
      then
        (let child = getChild trie node i; trieLetter = letter child
         in if (case crossChecks (nat r) (nat c) of
                  Some allowed \<Rightarrow> trieLetter \<notin> set allowed
                | None \<Rightarrow> False)
            then extendRightLoop trie board r c partialWordInternal node rack crossChecks
                   results d (i + 1)
            else if trieLetter \<in> set rack
            then (case extendRight trie board r (c + 1)
                         (partialWordInternal @ getInternalChar trieLetter False) child
                         (remove1 trieLetter rack) crossChecks results d of
                    None \<Rightarrow> None
                  | Some results' \<Rightarrow>
                      extendRightLoop trie board r c partialWordInternal node rack
                        crossChecks results' d (i + 1))
            else if asc ''?'' \<in> set rack
            then (case extendRight trie board r (c + 1)
                         (partialWordInternal @ getInternalChar trieLetter True) child
                         (remove1 (asc ''?'') rack) crossChecks results d of
                    None \<Rightarrow> None
                  | Some results' \<Rightarrow>
                      extendRightLoop trie board r c partialWordInternal node rack
                        crossChecks results' d (i + 1))
            else extendRightLoop trie board r c partialWordInternal node rack crossChecks
                   results d (i + 1))
      else Some results)"
  by pat_completeness auto
termination
  by (relation "inv_image (measure id <*lex*> measure id)
        (\<lambda>x. case x of
           Inl (trie, board, r, c, p, node, rack, cc, results, d) \<Rightarrow> (nat (16 - c), 0)
         | Inr (trie, board, r, c, p, node, rack, cc, results, d, i) \<Rightarrow>
             (nat (15 - c), Suc (childCount node - i)))")
     (auto simp add: BOARD_SIZE_def)

declare extendRight.simps [simp del]
declare extendRightLoop.simps [simp del]

function leftPart ::
  "FrozenTrie \<Rightarrow> Board \<Rightarrow> int \<Rightarrow> int \<Rightarrow> jsstring \<Rightarrow> FrozenTrieNode \<Rightarrow> int \<Rightarrow> jsstring list
     \<Rightarrow> (nat \<Rightarrow> nat \<Rightarrow> jsstring list option) \<Rightarrow> PlayerMove list \<Rightarrow> Direction
     \<Rightarrow> PlayerMove list option"
and leftPartLoop ::
  "FrozenTrie \<Rightarrow> Board \<Rightarrow> int \<Rightarrow> int \<Rightarrow> jsstring \<Rightarrow> FrozenTrieNode \<Rightarrow> int \<Rightarrow> jsstring list
     \<Rightarrow> (nat \<Rightarrow> nat \<Rightarrow> jsstring list option) \<Rightarrow> PlayerMove list \<Rightarrow> Direction \<Rightarrow> nat
     \<Rightarrow> PlayerMove list option"
where
  "leftPart trie board r anchorCol partialWordInternal node limit rack crossChecks results d =
     (case extendRight trie board r anchorCol partialWordInternal node rack crossChecks results d of
        None \<Rightarrow> None
      | Some results' \<Rightarrow>
          if limit > 0
          then leftPartLoop trie board r anchorCol partialWordInternal node limit rack
                 crossChecks results' d 0
          else Some results')"
| "leftPartLoop trie board r anchorCol partialWordInternal node limit rack crossChecks results d i =
     (if i < childCount node
      then
        (let child = getChild trie node i; trieLetter = letter child
         in if trieLetter \<in> set rack
            then (case leftPart trie board r anchorCol
                         (partialWordInternal @ getInternalChar trieLetter False) child (limit - 1)
                         (remove1 trieLetter rack) crossChecks results d of
                    None \<Rightarrow> None
                  | Some results' \<Rightarrow>
                      leftPartLoop trie board r anchorCol partialWordInternal node limit rack
                        crossChecks results' d (i + 1))
            else if asc ''?'' \<in> set rack
            then (case leftPart trie board r anchorCol
                         (partialWordInternal @ getInternalChar trieLetter True) child (limit - 1)
                         (remove1 (asc ''?'') rack) crossChecks results d of
                    None \<Rightarrow> None
                  | Some results' \<Rightarrow>
                      leftPartLoop trie board r anchorCol partialWordInternal node limit rack
                        crossChecks results' d (i + 1))
            else leftPartLoop trie board r anchorCol partialWordInternal node limit rack
                   crossChecks results d (i + 1))
      else Some results)"
  by pat_completeness auto
termination
  by (relation "inv_image (measure id <*lex*> measure id)
        (\<lambda>x. case x of
           Inl (trie, board, r, c, p, node, limit, rack, cc, results, d) \<Rightarrow> (nat (limit + 1), 0)
         | Inr (trie, board, r, c, p, node, limit, rack, cc, results, d, i) \<Rightarrow>
             (nat limit, Suc (childCount node - i)))")
     auto

declare leftPart.simps [simp del]
declare leftPartLoop.simps [simp del]

subsection \<open>findMovesInDirection\<close>

text \<open>
  For an anchor with a tile on its left: the start of the word fragment that ends left
  of the anchor, and the walk through the trie along the fragment. The walk gives the
  fragment and the node it leads to, or \<open>None\<close> when the trie has no such path
  (\<open>validPrefix = false\<close>).
\<close>

function scanStart :: "Board \<Rightarrow> nat \<Rightarrow> nat \<Rightarrow> nat" where
  "scanStart board r start =
     (if start > 0 \<and> tile (board r (start - 1)) \<noteq> None then scanStart board r (start - 1)
      else start)"
  by pat_completeness auto
termination
  by (relation "measure (\<lambda>(board, r, start). start)") auto

declare scanStart.simps [simp del]

fun walkPrefix ::
  "FrozenTrie \<Rightarrow> Board \<Rightarrow> nat \<Rightarrow> nat list \<Rightarrow> jsstring \<Rightarrow> FrozenTrieNode
     \<Rightarrow> (jsstring \<times> FrozenTrieNode) option" where
  "walkPrefix trie board r [] prefixInternal currNode = Some (prefixInternal, currNode)"
| "walkPrefix trie board r (k # ks) prefixInternal currNode =
     (case findChild trie currNode (getTrieChar (tileCharAt board r k)) of
        None \<Rightarrow> None
      | Some nextNode \<Rightarrow>
          walkPrefix trie board r ks (prefixInternal @ tileCharAt board r k) nextNode)"

text \<open>
  For an anchor with no tile on its left: \<open>limitLeft\<close>, the number of empty cells to
  the left up to the next anchor, the next tile or the edge.
\<close>

function leftLimit :: "Board \<Rightarrow> (nat \<times> nat) list \<Rightarrow> nat \<Rightarrow> int \<Rightarrow> int" where
  "leftLimit board anchors r k =
     (if k \<ge> 0 \<and> tile (board r (nat k)) = None
      then (if (r, nat k) \<in> set anchors then 0 else 1 + leftLimit board anchors r (k - 1))
      else 0)"
  by pat_completeness auto
termination
  by (relation "measure (\<lambda>(board, anchors, r, k). nat (k + 1))") auto

declare leftLimit.simps [simp del]

definition processAnchor ::
  "FrozenTrie \<Rightarrow> Board \<Rightarrow> (nat \<times> nat) list \<Rightarrow> jsstring list
     \<Rightarrow> (nat \<Rightarrow> nat \<Rightarrow> jsstring list option) \<Rightarrow> Direction \<Rightarrow> nat \<times> nat \<Rightarrow> PlayerMove list
     \<Rightarrow> PlayerMove list option" where
  "processAnchor trie currentBoard anchors trieRack crossChecks d anchor moves =
     (case anchor of (r, c) \<Rightarrow>
        if c > 0 \<and> tile (currentBoard r (c - 1)) \<noteq> None
        then
          (let start = scanStart currentBoard r (c - 1)
           in case walkPrefix trie currentBoard r [start..<c] [] (getRoot trie) of
                None \<Rightarrow> Some moves
              | Some (prefixInternal, currNode) \<Rightarrow>
                  extendRight trie currentBoard (int r) (int c) prefixInternal currNode trieRack
                    crossChecks moves d)
        else
          leftPart trie currentBoard (int r) (int c) [] (getRoot trie)
            (leftLimit currentBoard anchors r (int c - 1)) trieRack crossChecks moves d)"

fun processAnchors ::
  "FrozenTrie \<Rightarrow> Board \<Rightarrow> (nat \<times> nat) list \<Rightarrow> jsstring list
     \<Rightarrow> (nat \<Rightarrow> nat \<Rightarrow> jsstring list option) \<Rightarrow> Direction \<Rightarrow> (nat \<times> nat) list
     \<Rightarrow> PlayerMove list \<Rightarrow> PlayerMove list option" where
  "processAnchors trie currentBoard anchors trieRack crossChecks d [] moves = Some moves"
| "processAnchors trie currentBoard anchors trieRack crossChecks d (anchor # rest) moves =
     (case processAnchor trie currentBoard anchors trieRack crossChecks d anchor moves of
        None \<Rightarrow> None
      | Some moves' \<Rightarrow>
          processAnchors trie currentBoard anchors trieRack crossChecks d rest moves')"

text \<open>
  \<open>findMovesInDirection\<close>: the anchors row by row (\<open>rowAnchors\<close> is the filter of the
  anchors on row \<open>r\<close>), each expanded into the shared list of moves.
\<close>

definition findMovesInDirection ::
  "FrozenTrie \<Rightarrow> bool \<Rightarrow> jsstring list \<Rightarrow> Board \<Rightarrow> Direction \<Rightarrow> PlayerMove list
     \<Rightarrow> PlayerMove list option" where
  "findMovesInDirection trie isEmpty trieRack currentBoard d moves =
     (let crossChecks = computeCrossChecks currentBoard trie;
          anchors = findAnchors currentBoard isEmpty
      in processAnchors trie currentBoard anchors trieRack crossChecks d
           (concat (map (\<lambda>r. filter (\<lambda>a. fst a = r) anchors) [0..<15])) moves)"

subsection \<open>findBestMoves\<close>

text \<open>The transposed board of the vertical pass.\<close>

definition transposeBoard :: "Board \<Rightarrow> Board" where
  "transposeBoard board = (\<lambda>c r. (board r c)\<lparr>row := int c, col := int r\<rparr>)"

text \<open>
  The scoring pass: every generated move is scored by \<open>calculateMoveScore\<close> on the
  original board and rack. A call that throws ends \<open>findBestMoves\<close> (\<open>None\<close>).
\<close>

definition scoreMove ::
  "FrozenTrie option \<Rightarrow> Board \<Rightarrow> jsstring list \<Rightarrow> PlayerMove \<Rightarrow> PlayerMove option" where
  "scoreMove trieInstance board rack m =
     (case calculateMoveScore trieInstance board (mtiles m) rack (mrow m) (mcol m) (mdirection m) of
        None \<Rightarrow> None
      | Some res \<Rightarrow>
          Some (m\<lparr>mscore := Some (if isValid res then score res else - 1),
                  misValid := Some (isValid res),
                  merror := error res\<rparr>))"

fun scoreMoves ::
  "FrozenTrie option \<Rightarrow> Board \<Rightarrow> jsstring list \<Rightarrow> PlayerMove list \<Rightarrow> PlayerMove list option" where
  "scoreMoves trieInstance board rack [] = Some []"
| "scoreMoves trieInstance board rack (m # ms) =
     (case scoreMove trieInstance board rack m of
        None \<Rightarrow> None
      | Some m' \<Rightarrow>
          (case scoreMoves trieInstance board rack ms of
             None \<Rightarrow> None
           | Some ms' \<Rightarrow> Some (m' # ms')))"

text \<open>The filter \<open>m.isValid && m.score !== undefined && m.score > 0\<close>.\<close>

definition keepMove :: "PlayerMove \<Rightarrow> bool" where
  "keepMove m = (misValid m = Some True \<and> (case mscore m of Some s \<Rightarrow> s > 0 | None \<Rightarrow> False))"

text \<open>\<open>m.score || 0\<close>.\<close>

definition scoreOr0 :: "PlayerMove \<Rightarrow> int" where
  "scoreOr0 m = (case mscore m of Some s \<Rightarrow> s | None \<Rightarrow> 0)"

text \<open>
  The key of the deduplication, the string \<open>word-row-col-direction\<close>, with the numbers
  in decimal.
\<close>

function digits :: "nat \<Rightarrow> jsstring" where
  "digits n = (if n < 10 then [48 + int n] else digits (n div 10) @ [48 + int (n mod 10)])"
  by pat_completeness auto
termination
  by (relation "measure id") auto

declare digits.simps [simp del]

definition numberToString :: "int \<Rightarrow> jsstring" where
  "numberToString i = (if i < 0 then 45 # digits (nat (- i)) else digits (nat i))"

definition moveKey :: "PlayerMove \<Rightarrow> jsstring" where
  "moveKey m =
     mword m @ asc ''-'' @ numberToString (mrow m) @ asc ''-'' @ numberToString (mcol m)
       @ asc ''-'' @ (if mdirection m = DirH then asc ''H'' else asc ''V'')"

text \<open>
  \<open>Map.set\<close> on a \<open>Map\<close> kept in insertion order: the value of a present key is
  replaced where it stands, a new key goes to the end.
\<close>

fun mapSet :: "'k \<Rightarrow> 'v \<Rightarrow> ('k \<times> 'v) list \<Rightarrow> ('k \<times> 'v) list" where
  "mapSet k v [] = [(k, v)]"
| "mapSet k v (p # ps) = (if fst p = k then (k, v) # ps else p # mapSet k v ps)"

definition dedupeStep :: "PlayerMove \<Rightarrow> (jsstring \<times> PlayerMove) list \<Rightarrow> (jsstring \<times> PlayerMove) list" where
  "dedupeStep m uniqueMoves =
     (case map_of uniqueMoves (moveKey m) of
        None \<Rightarrow> mapSet (moveKey m) m uniqueMoves
      | Some existing \<Rightarrow>
          if scoreOr0 m > scoreOr0 existing then mapSet (moveKey m) m uniqueMoves
          else uniqueMoves)"

definition dedupe :: "PlayerMove list \<Rightarrow> PlayerMove list" where
  "dedupe scoredMoves = map snd (fold dedupeStep scoredMoves [])"

text \<open>
  \<open>sort\<close> by score, highest first (the sort of an array is stable), and
  \<open>slice(0, n)\<close>, which counts a negative \<open>n\<close> from the end.
\<close>

definition sortByScore :: "PlayerMove list \<Rightarrow> PlayerMove list" where
  "sortByScore ms = sort_key (\<lambda>m. - scoreOr0 m) ms"

definition sliceFromStart :: "int \<Rightarrow> 'a list \<Rightarrow> 'a list" where
  "sliceFromStart n xs = (if n < 0 then take (nat (int (length xs) + n)) xs else take (nat n) xs)"

text \<open>
  \<open>findBestMoves\<close>. The first argument is the module variable \<open>trieInstance\<close> that
  \<open>getTrie()\<close> reads; the result is \<open>None\<close> when the call throws.
\<close>

fun findBestMoves ::
  "FrozenTrie option \<Rightarrow> Board \<Rightarrow> jsstring list \<Rightarrow> int \<Rightarrow> PlayerMove list option" where
  "findBestMoves None board rack limit = Some []"
| "findBestMoves (Some trie) board rack limit =
     (let effectiveLimit = (if limit = 0 then 5000 else limit);
          isEmpty = isBoardEmpty board;
          trieRack = map (\<lambda>c. if c = asc ''?'' then asc ''?'' else getTrieChar c) rack
      in case findMovesInDirection trie isEmpty trieRack board DirH [] of
           None \<Rightarrow> None
         | Some movesH \<Rightarrow>
             (case findMovesInDirection trie isEmpty trieRack (transposeBoard board) DirV movesH of
                None \<Rightarrow> None
              | Some moves \<Rightarrow>
                  (case scoreMoves (Some trie) board rack moves of
                     None \<Rightarrow> None
                   | Some scored \<Rightarrow>
                       Some (sliceFromStart effectiveLimit
                               (sortByScore (dedupe (filter keepMove scored)))))))"

section \<open>Loading a dictionary (scrabbleUtils.ts)\<close>

text \<open>
  The payload of a dictionary, as parsed from JSON: \<open>trie\<close>, \<open>directory\<close>,
  \<open>nodeCount\<close> and \<open>version\<close>, with \<open>None\<close> for a field that is absent. A payload
  that is not an object has no fields.
\<close>

record DictionaryData =
  dtrie :: "jsstring option"
  ddirectory :: "jsstring option"
  dnodeCount :: "int option"
  dversion :: "jsstring option"

text \<open>
  The module variables \<open>trieInstance\<close>, \<open>currentDictionaryName\<close> and
  \<open>currentDictionaryData\<close>.
\<close>

record DictionaryState =
  trieInstance :: "FrozenTrie option"
  currentDictionaryName :: jsstring
  currentDictionaryData :: "DictionaryData option"


definition isDictionaryLoaded :: "DictionaryState \<Rightarrow> bool" where
  "isDictionaryLoaded st = (trieInstance st \<noteq> None)"




section \<open>Notions used to state the properties\<close>

subsection \<open>Words of letters and ligature spellings\<close>

text \<open>
  A word composed purely of letters, digraphs and ligatures: the separators (middle dot
  183, full stop 46, hyphen 45) occur only inside a ligature spelling, which is an L, a
  separator and an L, in either case. The digraphs QU and NY are made of letters.
\<close>

definition isLigatureSpelling :: "jsstring \<Rightarrow> bool" where
  "isLigatureSpelling s =
     (case s of
        [a, b, c] \<Rightarrow> (a = 76 \<or> a = 108) \<and> (b = 183 \<or> b = 46 \<or> b = 45) \<and> (c = 76 \<or> c = 108)
      | _ \<Rightarrow> False)"

fun pureWord :: "jsstring \<Rightarrow> bool" where
  "pureWord [] = True"
| "pureWord (a # w) =
     (if isLigatureSpelling (take 3 (a # w)) then pureWord (drop 2 w)
      else a \<noteq> 183 \<and> a \<noteq> 46 \<and> a \<noteq> 45 \<and> pureWord w)"

text \<open>Where \<open>parseInputWord\<close> reads a two-letter digraph, and how one symbol is displayed.\<close>

definition isDigraphStart :: "jsstring \<Rightarrow> bool" where
  "isDigraphStart w =
     (case w of
        a # b # _ \<Rightarrow> ((a = 81 \<or> a = 113) \<and> (b = 85 \<or> b = 117)) \<or> ((a = 78 \<or> a = 110) \<and> (b = 89 \<or> b = 121))
      | _ \<Rightarrow> False)"

definition dispUnit :: "int \<Rightarrow> jsstring" where
  "dispUnit u = lookupOr REVERSE_DIGRAPH_MAP [u] [u]"

subsection \<open>The cells of a candidate\<close>

text \<open>
  The cells a candidate covers, with the tile offered for each, are the entries of
  \<open>newTilesMap\<close>. The rejections that the loop over the tiles returns on its own are
  the per-tile errors; the others come from the rules after the loop.
\<close>

definition perTileError :: "ScoreError \<Rightarrow> bool" where
  "perTileError e =
     (case e of
        OutOfBounds \<Rightarrow> True
      | CellConflict r c x y \<Rightarrow> True
      | MissingBlank x \<Rightarrow> True
      | MissingRackLetter x \<Rightarrow> True
      | _ \<Rightarrow> False)"

definition cellsOf :: "int \<Rightarrow> int \<Rightarrow> Direction \<Rightarrow> (nat \<times> Tile) list \<Rightarrow> NewTiles" where
  "cellsOf startRow startCol d its =
     map (\<lambda>(i, t). ((startRow + int i * drOf d, startCol + int i * dcOf d), t)) its"

definition coversOutside :: "NewTiles \<Rightarrow> bool" where
  "coversOutside cells = list_ex (\<lambda>((r, c), t). r \<ge> 15 \<or> c \<ge> 15) cells"

text \<open>
  The index of the first cell of a candidate that is beyond row or column 14: the
  number of cells before it.
\<close>

definition firstOutside :: "NewTiles \<Rightarrow> nat" where
  "firstOutside cells = length (takeWhile (\<lambda>((r, c), t). r < 15 \<and> c < 15) cells)"

definition coversCenter :: "NewTiles \<Rightarrow> bool" where
  "coversCenter cells = list_ex (\<lambda>((r, c), t). r = 7 \<and> c = 7) cells"

definition touchesBoard :: "Board \<Rightarrow> int \<Rightarrow> int \<Rightarrow> bool" where
  "touchesBoard board r c =
     (hasTileAt board r c \<or> hasTileAt board (r - 1) c \<or> hasTileAt board (r + 1) c
      \<or> hasTileAt board r (c - 1) \<or> hasTileAt board r (c + 1))"

definition touchesAny :: "Board \<Rightarrow> NewTiles \<Rightarrow> bool" where
  "touchesAny board cells = list_ex (\<lambda>((r, c), t). touchesBoard board r c) cells"

text \<open>
  A newly placed tile forms a cross word when a board tile is next to it across the
  play direction.
\<close>

definition hasCrossWord :: "Board \<Rightarrow> Direction \<Rightarrow> int \<Rightarrow> int \<Rightarrow> bool" where
  "hasCrossWord board d r c =
     (\<not> hasTileAt board r c \<and>
      (hasTileAt board (r - drOf (crossOf d)) (c - dcOf (crossOf d))
       \<or> hasTileAt board (r + drOf (crossOf d)) (c + dcOf (crossOf d))))"

text \<open>
  The cross word, written from the specification and not from the loops of the code.
  From the cell \<open>(r, c)\<close> the cells in steps of \<open>(sr, sc)\<close> form a line; fifteen steps
  reach past any edge of the board. The board tiles of the line up to the first cell
  that is empty or off the board are a run, nearest tile first. The cross word of a
  new tile is the run behind it read towards it, the tile, and the run ahead of it; its
  string is made of the display characters of these tiles. Its score is the new tile's
  face value times the letter multiplier of its cell, plus the face values of the
  board tiles of the word, all times the word multiplier of the new tile's cell.
\<close>

definition lineFrom :: "int \<Rightarrow> int \<Rightarrow> int \<Rightarrow> int \<Rightarrow> (int \<times> int) list" where
  "lineFrom r c sr sc = map (\<lambda>k. (r + int k * sr, c + int k * sc)) [1..<16]"

definition boardRun :: "Board \<Rightarrow> int \<Rightarrow> int \<Rightarrow> int \<Rightarrow> int \<Rightarrow> Tile list" where
  "boardRun board r c sr sc =
     map (\<lambda>(x, y). the (tile (board (nat x) (nat y))))
       (takeWhile (\<lambda>(x, y). hasTileAt board x y) (lineFrom r c sr sc))"

definition tilesBehind :: "Board \<Rightarrow> Direction \<Rightarrow> int \<Rightarrow> int \<Rightarrow> Tile list" where
  "tilesBehind board d r c = boardRun board r c (- drOf (crossOf d)) (- dcOf (crossOf d))"

definition tilesAhead :: "Board \<Rightarrow> Direction \<Rightarrow> int \<Rightarrow> int \<Rightarrow> Tile list" where
  "tilesAhead board d r c = boardRun board r c (drOf (crossOf d)) (dcOf (crossOf d))"

definition crossWordTiles :: "Board \<Rightarrow> Direction \<Rightarrow> int \<Rightarrow> int \<Rightarrow> Tile \<Rightarrow> Tile list" where
  "crossWordTiles board d r c t = rev (tilesBehind board d r c) @ [t] @ tilesAhead board d r c"

definition crossWordString :: "Board \<Rightarrow> Direction \<Rightarrow> int \<Rightarrow> int \<Rightarrow> Tile \<Rightarrow> jsstring" where
  "crossWordString board d r c t = concat (map displayChar (crossWordTiles board d r c t))"

definition boardTilesValue :: "Board \<Rightarrow> Direction \<Rightarrow> int \<Rightarrow> int \<Rightarrow> int" where
  "boardTilesValue board d r c =
     sum_list (map tvalue (tilesBehind board d r c)) + sum_list (map tvalue (tilesAhead board d r c))"

definition crossWordScore :: "Board \<Rightarrow> Direction \<Rightarrow> int \<Rightarrow> int \<Rightarrow> Tile \<Rightarrow> int" where
  "crossWordScore board d r c t =
     (tvalue t * getMultiplierVal (multiplier (board (nat r) (nat c))) False
      + boardTilesValue board d r c)
     * getMultiplierVal (multiplier (board (nat r) (nat c))) True"

text \<open>
  The main word: a covered cell that already holds a tile counts that tile's face value
  and no multiplier; a new tile counts its face value times the letter multiplier, and
  its cell's word multiplier enters the product.
\<close>

definition mainLetterScore :: "Board \<Rightarrow> int \<Rightarrow> int \<Rightarrow> Tile \<Rightarrow> int" where
  "mainLetterScore board r c t =
     (case tile (board (nat r) (nat c)) of
        Some existing \<Rightarrow> tvalue existing
      | None \<Rightarrow> tvalue t * getMultiplierVal (multiplier (board (nat r) (nat c))) False)"

definition mainWordFactor :: "Board \<Rightarrow> int \<Rightarrow> int \<Rightarrow> int" where
  "mainWordFactor board r c =
     (case tile (board (nat r) (nat c)) of
        Some existing \<Rightarrow> 1
      | None \<Rightarrow> getMultiplierVal (multiplier (board (nat r) (nat c))) True)"

definition crossWordsTotal :: "Board \<Rightarrow> Direction \<Rightarrow> NewTiles \<Rightarrow> int" where
  "crossWordsTotal board d cells =
     sum_list (map (\<lambda>((r, c), t). if hasCrossWord board d r c then crossWordScore board d r c t else 0) cells)"

definition mainWordTotal :: "Board \<Rightarrow> NewTiles \<Rightarrow> int" where
  "mainWordTotal board cells =
     sum_list (map (\<lambda>((r, c), t). mainLetterScore board r c t) cells)
     * prod_list (map (\<lambda>((r, c), t). mainWordFactor board r c) cells)"

definition newTileCount :: "Board \<Rightarrow> NewTiles \<Rightarrow> nat" where
  "newTileCount board cells = length (filter (\<lambda>((r, c), t). \<not> hasTileAt board r c) cells)"

text \<open>
  Every cross word of the candidate is in the dictionary. And, for the loop, what it
  has tested so far: the strings that \<open>getFullWordString\<close> reads with the map \<open>m\<close> at
  the cells that form a cross word.
\<close>

definition crossWordsValid :: "FrozenTrie option \<Rightarrow> Board \<Rightarrow> Direction \<Rightarrow> NewTiles \<Rightarrow> bool" where
  "crossWordsValid trie board d cells =
     list_all (\<lambda>((r, c), t). hasCrossWord board d r c \<longrightarrow>
                 validateWord trie (crossWordString board d r c t)) cells"

definition crossWordsChecked :: "FrozenTrie option \<Rightarrow> Board \<Rightarrow> Direction \<Rightarrow> NewTiles \<Rightarrow> NewTiles \<Rightarrow> bool" where
  "crossWordsChecked trie board d m cells =
     list_all (\<lambda>((r, c), t). hasCrossWord board d r c \<longrightarrow>
                 validateWord trie (getFullWordString board m r c (crossOf d))) cells"

text \<open>
  Two runs of the loop end the same way: both go on, with the same rack left, both
  return the same result, or both throw.
\<close>

fun sameOutcome :: "StepResult \<Rightarrow> StepResult \<Rightarrow> bool" where
  "sameOutcome (Continue a) (Continue b) = (rackAvailable a = rackAvailable b)"
| "sameOutcome (Return x) (Return y) = (x = y)"
| "sameOutcome Throw Throw = True"
| "sameOutcome _ _ = False"

text \<open>
  Whether the loop over the tiles runs to its end: no per-tile check rejects the
  candidate and nothing throws.
\<close>

definition passesTileChecks ::
  "FrozenTrie option \<Rightarrow> Board \<Rightarrow> Tile list \<Rightarrow> jsstring list \<Rightarrow> int \<Rightarrow> int \<Rightarrow> Direction \<Rightarrow> bool" where
  "passesTileChecks dict board tiles currentRack startRow startCol d =
     (let m = newTilesMap tiles startRow startCol d
      in case scoreTiles dict board m startRow startCol d (enumerate 0 tiles)
                (initialState dict currentRack (getFullWordString board m startRow startCol d)) of
           Continue st \<Rightarrow> True
         | _ \<Rightarrow> False)"

subsection \<open>Rejections for a word\<close>

text \<open>
  Whether a result of the validator is the rejection of a move for a word that is not
  in the dictionary.
\<close>

definition rejectsAsInvalidWord :: "ScoreResult option \<Rightarrow> bool" where
  "rejectsAsInvalidWord result =
     (case result of
        Some res \<Rightarrow> (case error res of Some (InvalidWord w) \<Rightarrow> True | _ \<Rightarrow> False)
      | None \<Rightarrow> False)"

subsection \<open>A load that fails\<close>




subsection \<open>The canonical form, step by step\<close>








subsection \<open>Example data\<close>

text \<open>
  A dictionary with the words AA, CA and CASA, as a node table: node 0 is the root with
  the children A (1) and C (2); node 3 ends AA, node 4 ends CA, node 6 ends CASA. And
  the initial board with the tile A on the center cell.
\<close>

definition demoTrie :: FrozenTrie where
  "demoTrie = FrozenTrie (\<lambda>k.
     if k = 0 then \<lparr>index = 0, letter = asc '' '', final = False, firstChild = 1, childCount = 2\<rparr>
     else if k = 1 then \<lparr>index = 1, letter = asc ''A'', final = False, firstChild = 3, childCount = 1\<rparr>
     else if k = 2 then \<lparr>index = 2, letter = asc ''C'', final = False, firstChild = 4, childCount = 1\<rparr>
     else if k = 3 then \<lparr>index = 3, letter = asc ''A'', final = True, firstChild = 5, childCount = 0\<rparr>
     else if k = 4 then \<lparr>index = 4, letter = asc ''A'', final = True, firstChild = 5, childCount = 1\<rparr>
     else if k = 5 then \<lparr>index = 5, letter = asc ''S'', final = False, firstChild = 6, childCount = 1\<rparr>
     else \<lparr>index = k, letter = asc ''A'', final = True, firstChild = 7, childCount = 0\<rparr>)"

definition boardWithA :: Board where
  "boardWithA = (\<lambda>r c. if r = 7 \<and> c = 7
                        then (createInitialBoard r c)\<lparr>tile := Some (createTile (asc ''A''))\<rparr>
                        else createInitialBoard r c)"

text \<open>The move CA across the center of the empty board, as the finder returns it.\<close>

definition demoMove :: PlayerMove where
  "demoMove = \<lparr>mword = asc ''CA'', mtiles = [createTile (asc ''C''), createTile (asc ''A'')],
               mrow = 7, mcol = 7, mdirection = DirH,
               mscore = Some 6, misValid = Some True, merror = None\<rparr>"

text \<open>The tiles Z, Z.\<close>

definition zzTiles :: "Tile list" where
  "zzTiles = [createTile (asc ''Z''), createTile (asc ''Z'')]"





section \<open>The tile model: parsing and display\<close>

lemma asc_simps:
  "asc [] = []"
  "asc (c # s) = of_char c # asc s"
  by (simp_all add: asc_def)

subsection \<open>Upper-casing and the patterns of the parser\<close>

lemma up_unit_cases: "(\<exists>v. toUpperCaseUnit u = [v]) \<or> toUpperCaseUnit u = [83, 83]"
  by (simp add: toUpperCaseUnit_def)

lemma up_unit_eq_iff:
  "toUpperCaseUnit u = [76] \<longleftrightarrow> u = 76 \<or> u = 108"
  "toUpperCaseUnit u = [81] \<longleftrightarrow> u = 81 \<or> u = 113"
  "toUpperCaseUnit u = [78] \<longleftrightarrow> u = 78 \<or> u = 110"
  "toUpperCaseUnit u = [85] \<longleftrightarrow> u = 85 \<or> u = 117"
  "toUpperCaseUnit u = [89] \<longleftrightarrow> u = 89 \<or> u = 121"
  "toUpperCaseUnit u = [183] \<longleftrightarrow> u = 183"
  "toUpperCaseUnit u = [46] \<longleftrightarrow> u = 46"
  "toUpperCaseUnit u = [45] \<longleftrightarrow> u = 45"
  by (auto simp add: toUpperCaseUnit_def split: if_splits)

lemma up3_eq:
  "toUpperCaseUnit a @ toUpperCaseUnit b @ toUpperCaseUnit c = [x, y, z] \<longleftrightarrow>
     toUpperCaseUnit a = [x] \<and> toUpperCaseUnit b = [y] \<and> toUpperCaseUnit c = [z]"
proof -
  from up_unit_cases[of a] up_unit_cases[of b] up_unit_cases[of c]
  consider (one) va vb vc where "toUpperCaseUnit a = [va]" "toUpperCaseUnit b = [vb]" "toUpperCaseUnit c = [vc]"
    | (a2) "toUpperCaseUnit a = [83, 83]"
    | (b2) "toUpperCaseUnit b = [83, 83]"
    | (c2) "toUpperCaseUnit c = [83, 83]"
    by blast
  then show ?thesis
  proof cases
    case one then show ?thesis by simp
  next
    case a2
    from up_unit_cases[of b] up_unit_cases[of c] show ?thesis unfolding a2 by auto
  next
    case b2
    from up_unit_cases[of a] up_unit_cases[of c] show ?thesis unfolding b2 by auto
  next
    case c2
    from up_unit_cases[of a] up_unit_cases[of b] show ?thesis unfolding c2 by auto
  qed
qed

lemma up2_eq:
  "toUpperCaseUnit a @ toUpperCaseUnit b = [x, y] \<longleftrightarrow>
     toUpperCaseUnit a = [x] \<and> toUpperCaseUnit b = [y]"
  using up_unit_cases[of a] up_unit_cases[of b] by auto

lemma up2_ne3:
  "z \<noteq> 83 \<Longrightarrow> x \<noteq> 83 \<Longrightarrow> toUpperCaseUnit a @ toUpperCaseUnit b \<noteq> [x, y, z]"
  using up_unit_cases[of a] up_unit_cases[of b] by auto

lemma up1_ne3: "toUpperCaseUnit a \<noteq> [x, y, z]"
  using up_unit_cases[of a] by auto

lemma up1_ne2: "x \<noteq> 83 \<Longrightarrow> toUpperCaseUnit a \<noteq> [x, y]"
  using up_unit_cases[of a] by auto

lemma c3_iff:
  "toUpperCase (take 3 w) \<in> {[76, 183, 76], asc ''L.L'', asc ''L-L''} \<longleftrightarrow> isLigatureSpelling (take 3 w)"
proof -
  consider "w = []" | a where "w = [a]" | a b where "w = [a, b]" | a b c r where "w = a # b # c # r"
    by (metis list.exhaust)
  then show ?thesis
  proof cases
    case 1 then show ?thesis by (simp add: toUpperCase_def isLigatureSpelling_def asc_simps)
  next
    case 2 then show ?thesis
      by (simp add: toUpperCase_def isLigatureSpelling_def asc_simps up1_ne3)
  next
    case 3 then show ?thesis
      by (simp add: toUpperCase_def isLigatureSpelling_def asc_simps up2_ne3)
  next
    case 4 then show ?thesis
      by (auto simp add: toUpperCase_def isLigatureSpelling_def asc_simps up3_eq up_unit_eq_iff)
  qed
qed

lemma c2_iff:
  "toUpperCase (take 2 w) \<in> {asc ''QU'', asc ''NY''} \<longleftrightarrow>
     (\<exists>a b r. w = a # b # r \<and> (((a = 81 \<or> a = 113) \<and> (b = 85 \<or> b = 117)) \<or> ((a = 78 \<or> a = 110) \<and> (b = 89 \<or> b = 121))))"
proof -
  consider "w = []" | a where "w = [a]" | a b r where "w = a # b # r"
    by (metis list.exhaust)
  then show ?thesis
  proof cases
    case 1 then show ?thesis by (simp add: toUpperCase_def asc_simps)
  next
    case 2 then show ?thesis
      by (simp add: toUpperCase_def asc_simps up1_ne2)
  next
    case 3 then show ?thesis
      by (auto simp add: toUpperCase_def asc_simps up2_eq up_unit_eq_iff)
  qed
qed

lemma c2_digraph: "toUpperCase (take 2 w) \<in> {asc ''QU'', asc ''NY''} \<longleftrightarrow> isDigraphStart w"
  unfolding c2_iff isDigraphStart_def by (auto split: list.splits)

lemma low_unit_fix:
  "[a] = toLowerCase [a] \<longleftrightarrow> \<not> (65 \<le> a \<and> a \<le> 90) \<and> \<not> (192 \<le> a \<and> a \<le> 222 \<and> a \<noteq> 215) \<and> a \<noteq> 319 \<and> a \<noteq> 321"
  by (auto simp add: toLowerCase_def toLowerCaseUnit_def)

lemma upQ_iff: "toUpperCase [a] = asc ''Q'' \<longleftrightarrow> a = 81 \<or> a = 113"
  by (simp add: toUpperCase_def asc_simps up_unit_eq_iff)

lemma up2_QU: "(a = 81 \<or> a = 113) \<Longrightarrow> (b = 85 \<or> b = 117) \<Longrightarrow> toUpperCase (take 2 (a # b # r)) = [81, 85]"
  using up_unit_eq_iff(2)[of a] up_unit_eq_iff(4)[of b] by (simp add: toUpperCase_def)

lemma up2_NY: "(a = 78 \<or> a = 110) \<Longrightarrow> (b = 89 \<or> b = 121) \<Longrightarrow> toUpperCase (take 2 (a # b # r)) = [78, 89]"
  using up_unit_eq_iff(3)[of a] up_unit_eq_iff(5)[of b] by (simp add: toUpperCase_def)

subsection \<open>One step of the parser\<close>

lemma parse_Nil: "parseInputWord [] = []"
  by (simp add: parseInputWord.simps)

lemma parse_lig:
  assumes "isLigatureSpelling (take 3 (a # r))"
  shows "parseInputWord (a # r) = createTile (if a = 108 then [322] else [321]) # parseInputWord (drop 2 r)"
proof -
  from assms have a: "a = 76 \<or> a = 108"
    by (auto simp add: isLigatureSpelling_def split: list.splits)
  have "toUpperCase (take 3 (a # r)) \<in> {[76, 183, 76], asc ''L.L'', asc ''L-L''}"
    using assms c3_iff[of "a # r"] by simp
  then show ?thesis
    using a by (subst parseInputWord.simps(2)) (auto simp add: low_unit_fix Let_def)
qed

lemma parse_digraph:
  assumes "\<not> isLigatureSpelling (take 3 (a # b # r))" "isDigraphStart (a # b # r)"
  shows "parseInputWord (a # b # r) =
           createTile (if a = 81 then [219] else if a = 113 then [251] else if a = 78 then [221] else [253])
             # parseInputWord r"
proof -
  have n3: "toUpperCase (take 3 (a # b # r)) \<notin> {[76, 183, 76], asc ''L.L'', asc ''L-L''}"
    using assms(1) c3_iff[of "a # b # r"] by simp
  have y2: "toUpperCase (take 2 (a # b # r)) \<in> {asc ''QU'', asc ''NY''}"
    using assms(2) c2_digraph[of "a # b # r"] by simp
  have step: "parseInputWord (a # b # r) =
     createTile (if [a] = toLowerCase [a]
                 then toLowerCase (the (map_of DIGRAPH_MAP (toUpperCase (take 2 (a # b # r)))))
                 else the (map_of DIGRAPH_MAP (toUpperCase (take 2 (a # b # r)))))
       # parseInputWord r"
  proof -
    have m: "map_of DIGRAPH_MAP (toUpperCase (take 2 (a # b # r))) \<noteq> None"
      using y2 by (auto simp add: DIGRAPH_MAP_def asc_simps)
    have d1: "drop 1 (b # r) = r" by simp
    show ?thesis
      by (subst parseInputWord.simps(2)) (simp only: Let_def n3 y2 m if_False if_True simp_thms d1)
  qed
  from assms(2) consider
      (q) "(a = 81 \<or> a = 113)" "(b = 85 \<or> b = 117)"
    | (n) "(a = 78 \<or> a = 110)" "(b = 89 \<or> b = 121)"
    by (auto simp add: isDigraphStart_def)
  then show ?thesis
  proof cases
    case q
    have mp: "the (map_of DIGRAPH_MAP [81, 85]) = [219]"
      by (simp add: DIGRAPH_MAP_def asc_simps)
    have lw: "toLowerCase [219] = [251]"
      by (simp add: toLowerCase_def toLowerCaseUnit_def)
    show ?thesis unfolding step up2_QU[OF q] mp lw using q(1)
      by (auto simp add: low_unit_fix)
  next
    case n
    have mp: "the (map_of DIGRAPH_MAP [78, 89]) = [221]"
      by (simp add: DIGRAPH_MAP_def asc_simps)
    have lw: "toLowerCase [221] = [253]"
      by (simp add: toLowerCase_def toLowerCaseUnit_def)
    show ?thesis unfolding step up2_NY[OF n] mp lw using n(1)
      by (auto simp add: low_unit_fix)
  qed
qed

lemma parse_q:
  assumes "\<not> isLigatureSpelling (take 3 (a # r))" "\<not> isDigraphStart (a # r)" "a = 81 \<or> a = 113"
  shows "parseInputWord (a # r) = createTile (if a = 113 then [251] else [219]) # parseInputWord r"
proof -
  have n3: "toUpperCase (take 3 (a # r)) \<notin> {[76, 183, 76], asc ''L.L'', asc ''L-L''}"
    using assms(1) c3_iff[of "a # r"] by simp
  have n2: "toUpperCase (take 2 (a # r)) \<notin> {asc ''QU'', asc ''NY''}"
    using assms(2) c2_digraph[of "a # r"] by simp
  show ?thesis
    using n3 n2 assms(3) upQ_iff[of a] unfolding parseInputWord.simps(2)[of a r]
    by (auto simp add: Let_def asc_simps)
qed

lemma parse_single:
  assumes "\<not> isLigatureSpelling (take 3 (a # r))" "\<not> isDigraphStart (a # r)" "a \<noteq> 81" "a \<noteq> 113"
  shows "parseInputWord (a # r) = createTile [a] # parseInputWord r"
proof -
  have n3: "toUpperCase (take 3 (a # r)) \<notin> {[76, 183, 76], asc ''L.L'', asc ''L-L''}"
    using assms(1) c3_iff[of "a # r"] by simp
  have n2: "toUpperCase (take 2 (a # r)) \<notin> {asc ''QU'', asc ''NY''}"
    using assms(2) c2_digraph[of "a # r"] by simp
  show ?thesis
    using n3 n2 assms(3,4) upQ_iff[of a] unfolding parseInputWord.simps(2)[of a r]
    by (auto simp add: Let_def)
qed

subsection \<open>Parsing a displayed symbol\<close>

lemma dispUnit_eq:
  "dispUnit u = (if u = 219 then [81, 85] else if u = 321 then [76, 183, 76] else if u = 221 then [78, 89] else [u])"
  by (simp add: dispUnit_def lookupOr_def REVERSE_DIGRAPH_MAP_def asc_simps)

lemma tchar_createTile: "tchar (createTile [u]) = [u]"
  by (simp add: createTile_def Let_def)

lemma display_Nil: "tilesDisplayForm [] = []"
  by (simp add: tilesDisplayForm_def internalToDisplayWord_def)

lemma display_Cons:
  "tilesDisplayForm (createTile [u] # ts) = dispUnit u @ tilesDisplayForm ts"
  by (simp add: tilesDisplayForm_def internalToDisplayWord_def tchar_createTile dispUnit_def)

lemma reparse_lig: "parseInputWord ([76, 183, 76] @ s) = createTile [321] # parseInputWord s"
  using parse_lig[of 76 "183 # 76 # s"] by (simp add: isLigatureSpelling_def)

lemma reparse_QU: "parseInputWord ([81, 85] @ s) = createTile [219] # parseInputWord s"
  using parse_digraph[of 81 85 s] by (simp add: isLigatureSpelling_def isDigraphStart_def split: list.splits)

lemma reparse_NY: "parseInputWord ([78, 89] @ s) = createTile [221] # parseInputWord s"
  using parse_digraph[of 78 89 s] by (simp add: isLigatureSpelling_def isDigraphStart_def split: list.splits)

lemma not_lig_start: "a \<noteq> 76 \<Longrightarrow> a \<noteq> 108 \<Longrightarrow> \<not> isLigatureSpelling (take 3 (a # s))"
  by (auto simp add: isLigatureSpelling_def split: list.splits)

lemma not_dig_start: "a \<noteq> 81 \<Longrightarrow> a \<noteq> 113 \<Longrightarrow> a \<noteq> 78 \<Longrightarrow> a \<noteq> 110 \<Longrightarrow> \<not> isDigraphStart (a # s)"
  by (auto simp add: isDigraphStart_def split: list.splits)

lemma reparse_plain:
  assumes "a \<noteq> 76" "a \<noteq> 108" "a \<noteq> 81" "a \<noteq> 113" "a \<noteq> 78" "a \<noteq> 110"
  shows "parseInputWord (a # s) = createTile [a] # parseInputWord s"
  using parse_single[of a s] not_lig_start[of a s] not_dig_start[of a s] assms by simp

lemma reparse_internal:
  assumes "x \<in> {321, 322, 219, 251, 221, 253}"
  shows "parseInputWord (dispUnit x @ s) = createTile [x] # parseInputWord s"
proof -
  from assms consider "x = 321" | "x = 219" | "x = 221" | "x = 322 \<or> x = 251 \<or> x = 253" by auto
  then show ?thesis
  proof cases
    case 1 then show ?thesis using reparse_lig[of s] by (simp add: dispUnit_eq)
  next
    case 2 then show ?thesis using reparse_QU[of s] by (simp add: dispUnit_eq)
  next
    case 3 then show ?thesis using reparse_NY[of s] by (simp add: dispUnit_eq)
  next
    case 4 then show ?thesis using reparse_plain[of x s] by (auto simp add: dispUnit_eq)
  qed
qed

text \<open>The first symbol the parser produces, and what is left of the input.\<close>

lemma first_token:
  assumes "pureWord (a # r)"
  obtains
    (internal) x rest where "parseInputWord (a # r) = createTile [x] # parseInputWord rest"
      "pureWord rest" "length rest \<le> length r" "x \<in> {321, 322, 219, 251, 221, 253}"
  | (plain) "parseInputWord (a # r) = createTile [a] # parseInputWord r" "pureWord r"
      "a \<noteq> 183" "a \<noteq> 46" "a \<noteq> 45" "a \<noteq> 81" "a \<noteq> 113"
      "\<not> isLigatureSpelling (take 3 (a # r))" "\<not> isDigraphStart (a # r)"
proof (cases "isLigatureSpelling (take 3 (a # r))")
  case True
  from assms True have "pureWord (drop 2 r)" by simp
  then show ?thesis
    using parse_lig[OF True] internal[of "if a = 108 then 322 else 321" "drop 2 r"] by auto
next
  case nl: False
  from assms nl have pr: "pureWord r" and ns: "a \<noteq> 183" "a \<noteq> 46" "a \<noteq> 45" by simp_all
  show ?thesis
  proof (cases "isDigraphStart (a # r)")
    case True
    then obtain b r' where r: "r = b # r'" and b: "b = 85 \<or> b = 117 \<or> b = 89 \<or> b = 121"
      by (auto simp add: isDigraphStart_def split: list.splits)
    have "\<not> isLigatureSpelling (take 3 (b # r'))"
      using b by (auto simp add: isLigatureSpelling_def split: list.splits)
    with pr r have pr': "pureWord r'" by simp
    have "parseInputWord (a # r) =
           createTile [if a = 81 then 219 else if a = 113 then 251 else if a = 78 then 221 else 253]
             # parseInputWord r'"
      using parse_digraph[of a b r'] nl True r by auto
    then show ?thesis
      using internal[of "if a = 81 then 219 else if a = 113 then 251 else if a = 78 then 221 else 253" r'] pr' r
      by auto
  next
    case nd: False
    show ?thesis
    proof (cases "a = 81 \<or> a = 113")
      case True
      have "parseInputWord (a # r) = createTile [if a = 113 then 251 else 219] # parseInputWord r"
        using parse_q[OF nl nd True] by auto
      then show ?thesis
        using internal[of "if a = 113 then 251 else 219" r] pr by auto
    next
      case False
      then show ?thesis
        using plain parse_single[OF nl nd] pr ns nl nd by auto
    qed
  qed
qed

lemma display_head:
  assumes "pureWord r"
  shows "tilesDisplayForm (parseInputWord r) = [] \<or>
         (\<exists>h t. tilesDisplayForm (parseInputWord r) = h # t \<and> h \<noteq> 183 \<and> h \<noteq> 46 \<and> h \<noteq> 45
            \<and> ((h = 89 \<or> h = 121) \<longrightarrow> (\<exists>r'. r = h # r')))"
proof (cases r)
  case Nil
  then show ?thesis by (simp add: parse_Nil display_Nil)
next
  case (Cons a r0)
  from assms Cons have "pureWord (a # r0)" by simp
  then show ?thesis
  proof (cases rule: first_token)
    case (internal x rest)
    then show ?thesis unfolding Cons
      by (auto simp add: display_Cons dispUnit_eq)
  next
    case plain
    then show ?thesis unfolding Cons
      by (auto simp add: display_Cons dispUnit_eq)
  qed
qed

text \<open>
  Claim C7. For every word composed purely of letters, digraphs and ligature
  spellings, parsing the word, rendering the tiles back to display form and parsing
  again gives the tiles of the first parse.
\<close>

theorem parse_display_roundtrip:
  "pureWord w \<Longrightarrow> parseInputWord (tilesDisplayForm (parseInputWord w)) = parseInputWord w"
proof (induction w rule: length_induct)
  case (1 w)
  show ?case
  proof (cases w)
    case Nil
    then show ?thesis by (simp add: parse_Nil display_Nil)
  next
    case (Cons a r)
    from "1.prems" Cons have "pureWord (a # r)" by simp
    then show ?thesis
    proof (cases rule: first_token)
      case (internal x rest)
      have ih: "parseInputWord (tilesDisplayForm (parseInputWord rest)) = parseInputWord rest"
        using "1.IH" internal(2,3) Cons by simp
      show ?thesis unfolding Cons internal(1) display_Cons
        using reparse_internal[OF internal(4)] ih by simp
    next
      case plain
      have ih: "parseInputWord (tilesDisplayForm (parseInputWord r)) = parseInputWord r"
        using "1.IH" plain(2) Cons by simp
      let ?s = "tilesDisplayForm (parseInputWord r)"
      show ?thesis
      proof (cases "a = 219 \<or> a = 321 \<or> a = 221")
        case True
        then have "a \<in> {321, 322, 219, 251, 221, 253}" by auto
        from reparse_internal[OF this] ih show ?thesis
          unfolding Cons plain(1) display_Cons by simp
      next
        case False
        then have d: "dispUnit a = [a]" by (simp add: dispUnit_eq)
        have nl: "\<not> isLigatureSpelling (take 3 (a # ?s))"
          using display_head[OF plain(2)] by (auto simp add: isLigatureSpelling_def split: list.splits)
        have nd: "\<not> isDigraphStart (a # ?s)"
          using display_head[OF plain(2)] plain(9) plain(6,7)
          by (auto simp add: isDigraphStart_def split: list.splits)
        from parse_single[OF nl nd plain(6,7)] ih show ?thesis
          unfolding Cons plain(1) display_Cons d by simp
      qed
    qed
  qed
qed

text \<open>
  The instance at a word with a ligature, a digraph, a blank digraph, a ligature spelled
  with a hyphen and a lone Q.
\<close>

theorem parse_display_roundtrip_witness:
  "pureWord ([76, 183, 76] @ asc ''ANYqUL-lQ'')
   \<and> parseInputWord (tilesDisplayForm (parseInputWord ([76, 183, 76] @ asc ''ANYqUL-lQ'')))
       = parseInputWord ([76, 183, 76] @ asc ''ANYqUL-lQ'')
   \<and> map tchar (parseInputWord ([76, 183, 76] @ asc ''ANYqUL-lQ'')) = [[321], [65], [221], [251], [321], [219]]"
proof -
  have p: "pureWord ([76, 183, 76] @ asc ''ANYqUL-lQ'')" by code_simp
  have m: "map tchar (parseInputWord ([76, 183, 76] @ asc ''ANYqUL-lQ'')) = [[321], [65], [221], [251], [321], [219]]"
    by code_simp
  from parse_display_roundtrip[OF p] p m show ?thesis by simp
qed

subsection \<open>Blank tiles\<close>

lemma createTile_blank_value: "isBlank (createTile ch) \<Longrightarrow> tvalue (createTile ch) = 0"
  by (auto simp add: createTile_def Let_def split: if_splits)

lemma parseInputWord_created: "t \<in> set (parseInputWord w) \<Longrightarrow> \<exists>ch. t = createTile ch"
proof (induction w arbitrary: t rule: length_induct)
  case (1 w)
  show ?case
  proof (cases w)
    case Nil
    with "1.prems" show ?thesis by (simp add: parseInputWord.simps)
  next
    case (Cons a r)
    have len: "length (drop 2 r) < length w" "length (drop 1 r) < length w" "length r < length w"
      using Cons by simp_all
    from "1.prems" have "t \<in> set (parseInputWord (a # r))" by (simp add: Cons)
    then have "(\<exists>ch. t = createTile ch) \<or> t \<in> set (parseInputWord (drop 2 r))
        \<or> t \<in> set (parseInputWord (drop 1 r)) \<or> t \<in> set (parseInputWord r)"
      by (subst (asm) parseInputWord.simps(2)) (auto simp add: Let_def split: if_splits)
    with "1.IH" len show ?thesis by blast
  qed
qed

section \<open>The move validator\<close>

subsection \<open>Runs of board tiles\<close>

text \<open>
  The two scans of the cross-word score add up the face values of a run, and
  \<open>getFullWordString\<close> at a new tile, across the play direction, reads the run behind
  the tile, the tile and the run ahead of it.
\<close>

lemma upt_16_Cons: "n < 16 \<Longrightarrow> [n..<16] = n # [Suc n..<16]"
  by (rule upt_conv_Cons)

lemma run_sum:
  fixes L :: "nat \<Rightarrow> int"
  assumes step: "\<And>k. L k = (if occ k then v k + L (Suc k) else 0)"
    and "n \<le> j" "j \<le> 16" "\<not> occ j"
  shows "L n = sum_list (map v (takeWhile occ [n..<16]))"
  using assms(2-4)
proof (induction "j - n" arbitrary: n)
  case 0
  then have "n = j" by simp
  with 0 have no: "\<not> occ n" by simp
  then have "L n = 0" using step[of n] by simp
  moreover have "takeWhile occ [n..<16] = []"
  proof (cases "n < 16")
    case True
    with no show ?thesis by (simp add: upt_16_Cons)
  next
    case False
    then show ?thesis by simp
  qed
  ultimately show ?case by simp
next
  case (Suc x)
  then have lt: "n < 16" by simp
  show ?case
  proof (cases "occ n")
    case True
    with Suc.prems have "n \<noteq> j" by auto
    with Suc have "x = j - Suc n" "Suc n \<le> j" by simp_all
    from Suc.hyps(1)[OF this Suc.prems(2,3)]
    have "L (Suc n) = sum_list (map v (takeWhile occ [Suc n..<16]))" .
    with True step[of n] show ?thesis by (simp add: upt_16_Cons[OF lt])
  next
    case False
    with step[of n] show ?thesis by (simp add: upt_16_Cons[OF lt])
  qed
qed

lemma run_collect:
  fixes C :: "nat \<Rightarrow> jsstring \<Rightarrow> jsstring"
  assumes step: "\<And>k w. 1 \<le> k \<Longrightarrow> C k w = (if occ k then C (Suc k) (w @ s k) else w)"
    and "1 \<le> n" "n \<le> j" "j \<le> 16" "\<not> occ j"
  shows "C n w = w @ concat (map s (takeWhile occ [n..<16]))"
  using assms(2-5)
proof (induction "j - n" arbitrary: n w)
  case 0
  then have "n = j" by simp
  with 0 have no: "\<not> occ n" by simp
  then have "C n w = w" using step[of n w] 0 by simp
  moreover have "takeWhile occ [n..<16] = []"
  proof (cases "n < 16")
    case True
    with no show ?thesis by (simp add: upt_16_Cons)
  next
    case False
    then show ?thesis by simp
  qed
  ultimately show ?case by simp
next
  case (Suc x)
  then have lt: "n < 16" by simp
  show ?case
  proof (cases "occ n")
    case True
    with Suc.prems have "n \<noteq> j" by auto
    with Suc have "x = j - Suc n" "1 \<le> Suc n" "Suc n \<le> j" by simp_all
    from Suc.hyps(1)[OF this Suc.prems(3,4), of "w @ s n"]
    have "C (Suc n) (w @ s n) = (w @ s n) @ concat (map s (takeWhile occ [Suc n..<16]))" .
    with True step[of n w] Suc.prems(1) show ?thesis by (simp add: upt_16_Cons[OF lt])
  next
    case False
    with step[of n w] Suc.prems(1) show ?thesis by (simp add: upt_16_Cons[OF lt])
  qed
qed

lemma run_end:
  "\<not> (hasTileAt board (r + 1 * drOf d) (c + 1 * dcOf d) \<and> hasTileAt board (r + 16 * drOf d) (c + 16 * dcOf d))"
  "\<not> (hasTileAt board (r - 1 * drOf d) (c - 1 * dcOf d) \<and> hasTileAt board (r - 16 * drOf d) (c - 16 * dcOf d))"
  by (auto simp add: hasTileAt_def BOARD_SIZE_def drOf_def dcOf_def)

lemma boardRun_upt:
  "boardRun board r c sr sc =
     map (\<lambda>k. the (tile (board (nat (r + int k * sr)) (nat (c + int k * sc)))))
       (takeWhile (\<lambda>k. hasTileAt board (r + int k * sr) (c + int k * sc)) [1..<16])"
  by (simp add: boardRun_def lineFrom_def takeWhile_map comp_def)

lemma sumTilesForward_step:
  "sumTilesForward board x y d =
     (if hasTileAt board x y
      then tvalue (the (tile (board (nat x) (nat y)))) + sumTilesForward board (x + drOf d) (y + dcOf d) d
      else 0)"
  by (subst sumTilesForward.simps) (auto simp add: hasTileAt_def split: option.splits)

lemma sumTilesBack_step:
  "sumTilesBack board x y d =
     (if hasTileAt board x y
      then tvalue (the (tile (board (nat x) (nat y)))) + sumTilesBack board (x - drOf d) (y - dcOf d) d
      else 0)"
  by (subst sumTilesBack.simps) (auto simp add: hasTileAt_def split: option.splits)

lemma sumTilesForward_run:
  "sumTilesForward board (r + drOf d) (c + dcOf d) d
     = sum_list (map tvalue (boardRun board r c (drOf d) (dcOf d)))"
proof -
  let ?occ = "\<lambda>k. hasTileAt board (r + int k * drOf d) (c + int k * dcOf d)"
  let ?L = "\<lambda>k. sumTilesForward board (r + int k * drOf d) (c + int k * dcOf d) d"
  let ?v = "\<lambda>k. tvalue (the (tile (board (nat (r + int k * drOf d)) (nat (c + int k * dcOf d)))))"
  have step: "?L k = (if ?occ k then ?v k + ?L (Suc k) else 0)" for k
    by (subst sumTilesForward_step) (simp add: algebra_simps)
  from run_end(1)[of board r d c] obtain j where j: "1 \<le> j" "j \<le> 16" "\<not> ?occ j"
    by (cases "?occ 1") force+
  from run_sum[of ?L ?occ ?v 1 j, OF step j]
  show ?thesis by (simp add: boardRun_upt comp_def)
qed

lemma sumTilesBack_run:
  "sumTilesBack board (r - drOf d) (c - dcOf d) d
     = sum_list (map tvalue (boardRun board r c (- drOf d) (- dcOf d)))"
proof -
  let ?occ = "\<lambda>k. hasTileAt board (r + int k * (- drOf d)) (c + int k * (- dcOf d))"
  let ?L = "\<lambda>k. sumTilesBack board (r + int k * (- drOf d)) (c + int k * (- dcOf d)) d"
  let ?v = "\<lambda>k. tvalue (the (tile (board (nat (r + int k * (- drOf d))) (nat (c + int k * (- dcOf d))))))"
  have step: "?L k = (if ?occ k then ?v k + ?L (Suc k) else 0)" for k
    by (subst sumTilesBack_step) (simp add: algebra_simps)
  from run_end(2)[of board r d c] obtain j where j: "1 \<le> j" "j \<le> 16" "\<not> ?occ j"
    by (cases "?occ 1") force+
  from run_sum[of ?L ?occ ?v 1 j, OF step j]
  show ?thesis by (simp add: boardRun_upt comp_def)
qed

lemma takeWhile_upt_16:
  fixes occ :: "nat \<Rightarrow> bool"
  defines "n \<equiv> length (takeWhile occ [1..<16])"
  assumes ends: "\<not> (occ 1 \<and> occ 16)"
  shows "takeWhile occ [1..<16] = [1..<Suc n]"
    and "\<And>k. 1 \<le> k \<Longrightarrow> k \<le> n \<Longrightarrow> occ k"
    and "\<not> occ (Suc n)"
proof -
  have le: "n \<le> 15"
    using length_takeWhile_le[of occ "[1..<16]"] by (simp add: n_def)
  have "takeWhile occ [1..<16] = take n [1..<16]"
    unfolding n_def by (rule takeWhile_eq_take)
  also have "\<dots> = [1..<Suc n]"
    using le by simp
  finally show tw: "takeWhile occ [1..<16] = [1..<Suc n]" .
  show occ: "occ k" if "1 \<le> k" "k \<le> n" for k
  proof -
    from that have "k \<in> set [1..<Suc n]" by auto
    then have "k \<in> set (takeWhile occ [1..<16])" by (simp only: tw)
    then show ?thesis by (rule set_takeWhileD[THEN conjunct2])
  qed
  show "\<not> occ (Suc n)"
  proof (cases "n < 15")
    case True
    then have "length (takeWhile occ [1..<16]) < length [1..<16]" by (simp add: n_def)
    from nth_length_takeWhile[OF this] True show ?thesis by (simp add: n_def)
  next
    case False
    with le have n: "n = 15" by simp
    then have "occ 1" using occ[of 1] by simp
    with ends n show ?thesis by simp
  qed
qed

lemma collectWord_step:
  "collectWord board m x y d w =
     (if hasTileAt board x y
      then collectWord board m (x + drOf d) (y + dcOf d) d
             (w @ displayChar (the (tile (board (nat x) (nat y)))))
      else if x \<ge> 0 \<and> y \<ge> 0 \<and> x < 15 \<and> y < 15 \<and> newTileAt m (x, y) \<noteq> None
      then collectWord board m (x + drOf d) (y + dcOf d) d
             (w @ displayChar (the (newTileAt m (x, y))))
      else w)"
  by (subst collectWord.simps) (auto simp add: hasTileAt_def BOARD_SIZE_def split: option.splits)

lemma wordStart_step:
  "wordStart board m x y d =
     (if hasTileAt board (x - drOf d) (y - dcOf d) \<or> newTileAt m (x - drOf d, y - dcOf d) \<noteq> None
      then wordStart board m (x - drOf d) (y - dcOf d) d
      else (x, y))"
  by (subst wordStart.simps) (simp add: Let_def)

lemma collect_back:
  assumes "\<And>k. 1 \<le> k \<Longrightarrow> k \<le> j \<Longrightarrow> hasTileAt board (r - int k * drOf d) (c - int k * dcOf d)"
  shows "collectWord board m (r - int j * drOf d) (c - int j * dcOf d) d w
         = collectWord board m r c d
             (w @ concat (map (\<lambda>k. displayChar (the (tile (board (nat (r - int k * drOf d))
                                                                  (nat (c - int k * dcOf d))))))
                            (rev [1..<Suc j])))"
  using assms
proof (induction j arbitrary: w)
  case 0
  then show ?case by simp
next
  case (Suc j)
  have occ: "hasTileAt board (r - int (Suc j) * drOf d) (c - int (Suc j) * dcOf d)"
    using Suc.prems[of "Suc j"] by simp
  have pos: "r - int (Suc j) * drOf d + drOf d = r - int j * drOf d"
            "c - int (Suc j) * dcOf d + dcOf d = c - int j * dcOf d"
    by (simp_all add: algebra_simps)
  have ih: "collectWord board m (r - int j * drOf d) (c - int j * dcOf d) d w'
         = collectWord board m r c d
             (w' @ concat (map (\<lambda>k. displayChar (the (tile (board (nat (r - int k * drOf d))
                                                                  (nat (c - int k * dcOf d))))))
                            (rev [1..<Suc j])))" for w'
    using Suc.IH[of w'] Suc.prems by simp
  show ?case
    by (subst collectWord_step) (simp only: occ if_True pos ih, simp)
qed

lemma wordStart_back:
  assumes occ: "\<And>k. 1 \<le> k \<Longrightarrow> k \<le> j \<Longrightarrow> hasTileAt board (r - int k * drOf d) (c - int k * dcOf d)"
    and stop: "\<not> hasTileAt board (r - int (Suc j) * drOf d) (c - int (Suc j) * dcOf d)"
    and none: "\<And>k. 1 \<le> k \<Longrightarrow> newTileAt m (r - int k * drOf d, c - int k * dcOf d) = None"
    and "i \<le> j"
  shows "wordStart board m (r - int i * drOf d) (c - int i * dcOf d) d
         = (r - int j * drOf d, c - int j * dcOf d)"
  using assms(4)
proof (induction "j - i" arbitrary: i)
  case 0
  then have i: "i = j" by simp
  have pos: "r - int j * drOf d - drOf d = r - int (Suc j) * drOf d"
            "c - int j * dcOf d - dcOf d = c - int (Suc j) * dcOf d"
    by (simp_all add: algebra_simps)
  have n: "newTileAt m (r - int (Suc j) * drOf d, c - int (Suc j) * dcOf d) = None"
    using none[of "Suc j"] by simp
  show ?case
    unfolding i
    by (subst wordStart_step) (simp only: pos stop n, simp)
next
  case (Suc x)
  then have lt: "i < j" by simp
  have pos: "r - int i * drOf d - drOf d = r - int (Suc i) * drOf d"
            "c - int i * dcOf d - dcOf d = c - int (Suc i) * dcOf d"
    by (simp_all add: algebra_simps)
  have o: "hasTileAt board (r - int (Suc i) * drOf d) (c - int (Suc i) * dcOf d)"
    using occ[of "Suc i"] lt by simp
  from Suc have "x = j - Suc i" "Suc i \<le> j" by simp_all
  from Suc.hyps(1)[OF this]
  have ih: "wordStart board m (r - int (Suc i) * drOf d) (c - int (Suc i) * dcOf d) d
         = (r - int j * drOf d, c - int j * dcOf d)" .
  show ?case
    by (subst wordStart_step) (simp only: pos o ih, simp)
qed

lemma getFullWordString_cross:
  assumes ib: "0 \<le> r" "r < 15" "0 \<le> c" "c < 15"
    and em: "tile (board (nat r) (nat c)) = None"
    and nt: "newTileAt m (r, c) = Some t"
    and noneB: "\<And>k. 1 \<le> k \<Longrightarrow> newTileAt m (r - int k * drOf d, c - int k * dcOf d) = None"
    and noneF: "\<And>k. 1 \<le> k \<Longrightarrow> newTileAt m (r + int k * drOf d, c + int k * dcOf d) = None"
  shows "getFullWordString board m r c d
         = concat (map displayChar
             (rev (boardRun board r c (- drOf d) (- dcOf d)) @ [t] @ boardRun board r c (drOf d) (dcOf d)))"
proof -
  let ?occB = "\<lambda>k. hasTileAt board (r - int k * drOf d) (c - int k * dcOf d)"
  let ?occF = "\<lambda>k. hasTileAt board (r + int k * drOf d) (c + int k * dcOf d)"
  let ?sB = "\<lambda>k. displayChar (the (tile (board (nat (r - int k * drOf d)) (nat (c - int k * dcOf d)))))"
  let ?sF = "\<lambda>k. displayChar (the (tile (board (nat (r + int k * drOf d)) (nat (c + int k * dcOf d)))))"
  define n where "n = length (takeWhile ?occB [1..<16])"
  have endsB: "\<not> (?occB 1 \<and> ?occB 16)"
    using run_end(2)[of board r d c] by simp
  note tw = takeWhile_upt_16[of ?occB, OF endsB, folded n_def]
  have ws: "wordStart board m r c d = (r - int n * drOf d, c - int n * dcOf d)"
    using wordStart_back[of n board r d c m 0, OF tw(2) tw(3) noneB] by simp
  have cb: "collectWord board m (r - int n * drOf d) (c - int n * dcOf d) d []
         = collectWord board m r c d (concat (map ?sB (rev [1..<Suc n])))"
    using collect_back[of n board r d c m "[]", OF tw(2)] by simp
  have ch: "collectWord board m r c d w
         = collectWord board m (r + drOf d) (c + dcOf d) d (w @ displayChar t)" for w
    by (subst collectWord_step) (simp add: ib em nt hasTileAt_def)
  have stepF: "collectWord board m (r + int k * drOf d) (c + int k * dcOf d) d w =
        (if ?occF k
         then collectWord board m (r + int (Suc k) * drOf d) (c + int (Suc k) * dcOf d) d (w @ ?sF k)
         else w)" if "1 \<le> k" for k w
    by (subst collectWord_step) (simp add: noneF[OF that] algebra_simps)
  from run_end(1)[of board r d c] obtain j where j: "1 \<le> j" "j \<le> 16" "\<not> ?occF j"
    by (cases "?occF 1") force+
  have cf: "collectWord board m (r + drOf d) (c + dcOf d) d w
         = w @ concat (map ?sF (takeWhile ?occF [1..<16]))" for w
    using run_collect[of "\<lambda>k w. collectWord board m (r + int k * drOf d) (c + int k * dcOf d) d w"
                         ?occF ?sF 1 j w, OF stepF _ j]
    by simp
  have runB: "boardRun board r c (- drOf d) (- dcOf d)
         = map (\<lambda>k. the (tile (board (nat (r - int k * drOf d)) (nat (c - int k * dcOf d))))) [1..<Suc n]"
    using tw(1) by (simp add: boardRun_upt)
  have runF: "boardRun board r c (drOf d) (dcOf d)
         = map (\<lambda>k. the (tile (board (nat (r + int k * drOf d)) (nat (c + int k * dcOf d)))))
             (takeWhile ?occF [1..<16])"
    by (simp add: boardRun_upt)
  have "getFullWordString board m r c d
        = concat (map ?sB (rev [1..<Suc n])) @ displayChar t @ concat (map ?sF (takeWhile ?occF [1..<16]))"
    by (simp add: getFullWordString_def ws cb ch cf)
  also have "\<dots> = concat (map displayChar
             (rev (boardRun board r c (- drOf d) (- dcOf d)) @ [t] @ boardRun board r c (drOf d) (dcOf d)))"
    unfolding runB runF by (simp add: rev_map comp_def)
  finally show ?thesis .
qed

subsection \<open>The loop body\<close>

lemma perTileError_simps [simp]:
  "perTileError OutOfBounds"
  "perTileError (CellConflict r c x y)"
  "perTileError (MissingBlank x)"
  "perTileError (MissingRackLetter x)"
  "\<not> perTileError MissingCenter"
  "\<not> perTileError TooShortFirstMove"
  "\<not> perTileError NotConnected"
  "\<not> perTileError (InvalidWord w)"
  by (simp_all add: perTileError_def)

lemma placeNewTile_Return:
  "placeNewTile trie board m d r c cell t st = Return res \<Longrightarrow> \<exists>e. res = reject e \<and> perTileError e"
  by (auto simp add: placeNewTile_def Let_def split: option.splits if_splits)

lemma placeNewTile_not_Throw: "placeNewTile trie board m d r c cell t st \<noteq> Throw"
  by (auto simp add: placeNewTile_def Let_def split: option.splits if_splits)

lemma scoreTile_Return:
  "scoreTile trie board m startRow startCol d i t st = Return res \<Longrightarrow>
     \<exists>e. res = reject e \<and> perTileError e"
  by (auto simp add: scoreTile_def Let_def split: if_splits option.splits
           dest: placeNewTile_Return)

lemma scoreTile_Throw:
  "scoreTile trie board m startRow startCol d i t st = Throw \<Longrightarrow>
     startRow + int i * drOf d < 0 \<or> startCol + int i * dcOf d < 0"
  by (auto simp add: scoreTile_def Let_def cellAt_def BOARD_SIZE_def placeNewTile_not_Throw
           split: if_splits option.splits)

lemma scoreTile_Continue_inBoard:
  "scoreTile trie board m startRow startCol d i t st = Continue st' \<Longrightarrow>
     0 \<le> startRow + int i * drOf d \<and> startRow + int i * drOf d < 15 \<and>
     0 \<le> startCol + int i * dcOf d \<and> startCol + int i * dcOf d < 15"
  by (auto simp add: scoreTile_def Let_def cellAt_def BOARD_SIZE_def split: if_splits option.splits)

lemma scoreTile_OutOfBounds:
  "startRow + int i * drOf d \<ge> 15 \<or> startCol + int i * dcOf d \<ge> 15 \<Longrightarrow>
     scoreTile trie board m startRow startCol d i t st = Return (reject OutOfBounds)"
  by (auto simp add: scoreTile_def Let_def BOARD_SIZE_def)

lemma hasTileAt_inBoard:
  "0 \<le> r \<Longrightarrow> r < 15 \<Longrightarrow> 0 \<le> c \<Longrightarrow> c < 15 \<Longrightarrow> hasTileAt board r c \<longleftrightarrow> tile (board (nat r) (nat c)) \<noteq> None"
  by (simp add: hasTileAt_def BOARD_SIZE_def)

lemma scoreTile_inBoard:
  assumes "0 \<le> startRow + int i * drOf d" "startRow + int i * drOf d < 15"
    "0 \<le> startCol + int i * dcOf d" "startCol + int i * dcOf d < 15"
  shows "scoreTile trie board m startRow startCol d i t st =
     (case tile (board (nat (startRow + int i * drOf d)) (nat (startCol + int i * dcOf d))) of
        Some existing \<Rightarrow>
          if toUpperCase (tchar existing) \<noteq> toUpperCase (tchar t)
          then Return (reject (CellConflict (startRow + int i * drOf d) (startCol + int i * dcOf d)
                                 (displayChar existing) (displayChar t)))
          else Continue (st\<lparr>touchesCenter := touchesCenter st
                                \<or> (startRow + int i * drOf d = 7 \<and> startCol + int i * dcOf d = 7),
                             mainWordScore := mainWordScore st + tvalue existing,
                             touchesExisting := True\<rparr>)
      | None \<Rightarrow>
          placeNewTile trie board m d (startRow + int i * drOf d) (startCol + int i * dcOf d)
            (board (nat (startRow + int i * drOf d)) (nat (startCol + int i * dcOf d))) t
            (st\<lparr>touchesCenter := touchesCenter st
                    \<or> (startRow + int i * drOf d = 7 \<and> startCol + int i * dcOf d = 7)\<rparr>))"
  using assms by (simp add: scoreTile_def Let_def cellAt_def BOARD_SIZE_def split: option.splits)

lemma scoreTile_Continue:
  assumes "scoreTile trie board m startRow startCol d i t st = Continue st'"
  defines "r \<equiv> startRow + int i * drOf d" and "c \<equiv> startCol + int i * dcOf d"
  shows "touchesCenter st' = (touchesCenter st \<or> (r = 7 \<and> c = 7))"
    and "touchesExisting st' = (touchesExisting st \<or> touchesBoard board r c)"
    and "mainWordScore st' = mainWordScore st + mainLetterScore board r c t"
    and "mainWordMultiplier st' = mainWordMultiplier st * mainWordFactor board r c"
    and "tilesUsedFromRack st' = tilesUsedFromRack st + (if hasTileAt board r c then 0 else 1)"
    and "totalScore st' = totalScore st + (if hasCrossWord board d r c then crossWordScore board d r c t else 0)"
    and "allWordsValid st' = (allWordsValid st \<and>
            (hasCrossWord board d r c \<longrightarrow> validateWord trie (getFullWordString board m r c (crossOf d))))"
proof -
  from scoreTile_Continue_inBoard[OF assms(1)]
  have ib: "0 \<le> r" "r < 15" "0 \<le> c" "c < 15" by (simp_all add: r_def c_def)
  note h = hasTileAt_inBoard[OF ib]
  have eq: "(case tile (board (nat r) (nat c)) of
        Some existing \<Rightarrow>
          if toUpperCase (tchar existing) \<noteq> toUpperCase (tchar t)
          then Return (reject (CellConflict r c (displayChar existing) (displayChar t)))
          else Continue (st\<lparr>touchesCenter := touchesCenter st \<or> (r = 7 \<and> c = 7),
                             mainWordScore := mainWordScore st + tvalue existing,
                             touchesExisting := True\<rparr>)
      | None \<Rightarrow>
          placeNewTile trie board m d r c (board (nat r) (nat c)) t
            (st\<lparr>touchesCenter := touchesCenter st \<or> (r = 7 \<and> c = 7)\<rparr>)) = Continue st'"
    using assms(1) scoreTile_inBoard[of startRow i d startCol trie board m t st] ib
    unfolding r_def c_def by simp
  show "touchesCenter st' = (touchesCenter st \<or> (r = 7 \<and> c = 7))"
    using eq by (auto simp add: placeNewTile_def Let_def split: option.splits if_splits)
  show "touchesExisting st' = (touchesExisting st \<or> touchesBoard board r c)"
    using eq h by (auto simp add: placeNewTile_def Let_def touchesBoard_def split: option.splits if_splits)
  show "mainWordScore st' = mainWordScore st + mainLetterScore board r c t"
    using eq by (auto simp add: placeNewTile_def Let_def mainLetterScore_def split: option.splits if_splits)
  show "mainWordMultiplier st' = mainWordMultiplier st * mainWordFactor board r c"
    using eq by (auto simp add: placeNewTile_def Let_def mainWordFactor_def split: option.splits if_splits)
  show "tilesUsedFromRack st' = tilesUsedFromRack st + (if hasTileAt board r c then 0 else 1)"
    using eq h by (auto simp add: placeNewTile_def Let_def split: option.splits if_splits)
  show "totalScore st' = totalScore st + (if hasCrossWord board d r c then crossWordScore board d r c t else 0)"
    using eq h
    by (auto simp add: placeNewTile_def Let_def hasCrossWord_def crossWordScore_def boardTilesValue_def
                       tilesBehind_def tilesAhead_def sumTilesBack_run sumTilesForward_run
             split: option.splits if_splits)
  show "allWordsValid st' = (allWordsValid st \<and>
            (hasCrossWord board d r c \<longrightarrow> validateWord trie (getFullWordString board m r c (crossOf d))))"
    using eq h by (auto simp add: placeNewTile_def Let_def hasCrossWord_def split: option.splits if_splits)
qed

subsection \<open>The loop\<close>

lemma cellsOf_simps [simp]:
  "cellsOf startRow startCol d [] = []"
  "cellsOf startRow startCol d ((i, t) # its) =
     ((startRow + int i * drOf d, startCol + int i * dcOf d), t) # cellsOf startRow startCol d its"
  by (simp_all add: cellsOf_def)

lemma newTilesMap_cellsOf: "newTilesMap tiles startRow startCol d = cellsOf startRow startCol d (enumerate 0 tiles)"
  by (simp add: newTilesMap_def cellsOf_def)

lemma scoreTiles_Return:
  "scoreTiles trie board m startRow startCol d its st = Return res \<Longrightarrow>
     \<exists>e. res = reject e \<and> perTileError e"
proof (induction its arbitrary: st)
  case Nil
  then show ?case by simp
next
  case (Cons p its)
  obtain i t where p: "p = (i, t)" by (cases p)
  show ?case
  proof (cases "scoreTile trie board m startRow startCol d i t st")
    case (Continue st')
    with Cons show ?thesis by (simp add: p)
  next
    case (Return r')
    with Cons.prems have "res = r'" by (simp add: p)
    with scoreTile_Return[OF Return] show ?thesis by simp
  next
    case Throw
    with Cons.prems show ?thesis by (simp add: p)
  qed
qed

lemma scoreTiles_not_Throw:
  assumes "0 \<le> startRow" "0 \<le> startCol"
  shows "scoreTiles trie board m startRow startCol d its st \<noteq> Throw"
proof (induction its arbitrary: st)
  case Nil
  then show ?case by simp
next
  case (Cons p its)
  obtain i t where p: "p = (i, t)" by (cases p)
  have nonneg: "0 \<le> startRow + int i * drOf d" "0 \<le> startCol + int i * dcOf d"
    using assms by (simp_all add: drOf_def dcOf_def)
  show ?case
  proof (cases "scoreTile trie board m startRow startCol d i t st")
    case (Continue st')
    with Cons show ?thesis by (simp add: p)
  next
    case (Return r')
    then show ?thesis by (simp add: p)
  next
    case Throw
    with scoreTile_Throw[OF Throw] nonneg show ?thesis by simp
  qed
qed

lemma scoreTiles_Continue:
  assumes "scoreTiles trie board m startRow startCol d its st = Continue st'"
  defines "cells \<equiv> cellsOf startRow startCol d its"
  shows "touchesCenter st' = (touchesCenter st \<or> coversCenter cells)"
    and "touchesExisting st' = (touchesExisting st \<or> touchesAny board cells)"
    and "mainWordScore st' = mainWordScore st + sum_list (map (\<lambda>((r, c), t). mainLetterScore board r c t) cells)"
    and "mainWordMultiplier st' = mainWordMultiplier st * prod_list (map (\<lambda>((r, c), t). mainWordFactor board r c) cells)"
    and "tilesUsedFromRack st' = tilesUsedFromRack st + int (newTileCount board cells)"
    and "totalScore st' = totalScore st + crossWordsTotal board d cells"
    and "allWordsValid st' = (allWordsValid st \<and> crossWordsChecked trie board d m cells)"
  using assms(1) unfolding cells_def
proof (induction its arbitrary: st)
  case Nil
  {
    case 1 then show ?case by (simp add: coversCenter_def)
  next
    case 2 then show ?case by (simp add: touchesAny_def)
  next
    case 3 then show ?case by simp
  next
    case 4 then show ?case by simp
  next
    case 5 then show ?case by (simp add: newTileCount_def)
  next
    case 6 then show ?case by (simp add: crossWordsTotal_def)
  next
    case 7 then show ?case by (simp add: crossWordsChecked_def)
  }
next
  case (Cons p its)
  obtain i t where p: "p = (i, t)" by (cases p)
  {
    fix st
    assume a: "scoreTiles trie board m startRow startCol d (p # its) st = Continue st'"
    then obtain st1 where s1: "scoreTile trie board m startRow startCol d i t st = Continue st1"
      and s2: "scoreTiles trie board m startRow startCol d its st1 = Continue st'"
      by (auto simp add: p split: StepResult.splits)
    note h = scoreTile_Continue[OF s1]
    note ih = Cons.IH[OF s2]
    have "touchesCenter st' = (touchesCenter st \<or> coversCenter (cellsOf startRow startCol d (p # its)))"
      using ih(1) h(1) by (auto simp add: p coversCenter_def)
    moreover have "touchesExisting st' = (touchesExisting st \<or> touchesAny board (cellsOf startRow startCol d (p # its)))"
      using ih(2) h(2) by (auto simp add: p touchesAny_def)
    moreover have "mainWordScore st' = mainWordScore st + sum_list (map (\<lambda>((r, c), t). mainLetterScore board r c t) (cellsOf startRow startCol d (p # its)))"
      using ih(3) h(3) by (simp add: p)
    moreover have "mainWordMultiplier st' = mainWordMultiplier st * prod_list (map (\<lambda>((r, c), t). mainWordFactor board r c) (cellsOf startRow startCol d (p # its)))"
      using ih(4) h(4) by (simp add: p)
    moreover have "tilesUsedFromRack st' = tilesUsedFromRack st + int (newTileCount board (cellsOf startRow startCol d (p # its)))"
      using ih(5) h(5) by (simp add: p newTileCount_def)
    moreover have "totalScore st' = totalScore st + crossWordsTotal board d (cellsOf startRow startCol d (p # its))"
      using ih(6) h(6) by (simp add: p crossWordsTotal_def)
    moreover have "allWordsValid st' = (allWordsValid st \<and> crossWordsChecked trie board d m (cellsOf startRow startCol d (p # its)))"
      using ih(7) h(7) by (auto simp add: p crossWordsChecked_def)
    ultimately have "touchesCenter st' = (touchesCenter st \<or> coversCenter (cellsOf startRow startCol d (p # its)))
      \<and> touchesExisting st' = (touchesExisting st \<or> touchesAny board (cellsOf startRow startCol d (p # its)))
      \<and> mainWordScore st' = mainWordScore st + sum_list (map (\<lambda>((r, c), t). mainLetterScore board r c t) (cellsOf startRow startCol d (p # its)))
      \<and> mainWordMultiplier st' = mainWordMultiplier st * prod_list (map (\<lambda>((r, c), t). mainWordFactor board r c) (cellsOf startRow startCol d (p # its)))
      \<and> tilesUsedFromRack st' = tilesUsedFromRack st + int (newTileCount board (cellsOf startRow startCol d (p # its)))
      \<and> totalScore st' = totalScore st + crossWordsTotal board d (cellsOf startRow startCol d (p # its))
      \<and> allWordsValid st' = (allWordsValid st \<and> crossWordsChecked trie board d m (cellsOf startRow startCol d (p # its)))"
      by blast
  } note step = this
  {
    case 1 then show ?case using step by blast
  next
    case 2 then show ?case using step by blast
  next
    case 3 then show ?case using step by blast
  next
    case 4 then show ?case using step by blast
  next
    case 5 then show ?case using step by blast
  next
    case 6 then show ?case using step by blast
  next
    case 7 then show ?case using step by blast
  }
qed

text \<open>
  With a start cell of non-negative coordinates, a candidate that covers a cell beyond
  row or column 14 is rejected inside the loop.
\<close>

lemma scoreTiles_outside:
  assumes "0 \<le> startRow" "0 \<le> startCol"
    and "coversOutside (cellsOf startRow startCol d its)"
  shows "\<exists>e. scoreTiles trie board m startRow startCol d its st = Return (reject e) \<and> perTileError e"
  using assms(3)
proof (induction its arbitrary: st)
  case Nil
  then show ?case by (simp add: coversOutside_def)
next
  case (Cons p its)
  obtain i t where p: "p = (i, t)" by (cases p)
  have nonneg: "0 \<le> startRow + int i * drOf d" "0 \<le> startCol + int i * dcOf d"
    using assms(1,2) by (simp_all add: drOf_def dcOf_def)
  show ?case
  proof (cases "scoreTile trie board m startRow startCol d i t st")
    case (Continue st')
    then have "\<not> (startRow + int i * drOf d \<ge> 15 \<or> startCol + int i * dcOf d \<ge> 15)"
      using scoreTile_Continue_inBoard[OF Continue] by auto
    with Cons.prems p have "coversOutside (cellsOf startRow startCol d its)"
      by (auto simp add: coversOutside_def)
    from Cons.IH[OF this, of st'] show ?thesis
      by (simp add: p Continue)
  next
    case (Return res)
    then show ?thesis using scoreTile_Return[OF Return] by (auto simp add: p)
  next
    case Throw
    then show ?thesis using scoreTile_Throw[OF Throw] nonneg by auto
  qed
qed

subsection \<open>The whole call\<close>

lemma initialState_fields [simp]:
  "totalScore (initialState trie rack w) = 0"
  "mainWordScore (initialState trie rack w) = 0"
  "mainWordMultiplier (initialState trie rack w) = 1"
  "tilesUsedFromRack (initialState trie rack w) = 0"
  "touchesExisting (initialState trie rack w) = False"
  "touchesCenter (initialState trie rack w) = False"
  "allWordsValid (initialState trie rack w) = (\<not> (length w > 1 \<and> \<not> validateWord trie w))"
  by (simp_all add: initialState_def Let_def)

lemma reject_fields [simp]:
  "isValid (reject e) = False" "score (reject e) = 0" "error (reject e) = Some e"
  by (simp_all add: reject_def)

lemma reject_inject [simp]: "reject e = reject e' \<longleftrightarrow> e = e'"
  by (auto simp add: reject_def)

text \<open>The three ways a call can end.\<close>

lemma calculateMoveScore_cases:
  fixes trie board tiles rack startRow startCol d
  defines "m \<equiv> newTilesMap tiles startRow startCol d"
  defines "st0 \<equiv> initialState trie rack (getFullWordString board m startRow startCol d)"
  obtains
    (threw) "calculateMoveScore trie board tiles rack startRow startCol d = None"
      "startRow < 0 \<or> startCol < 0"
      "\<not> passesTileChecks trie board tiles rack startRow startCol d"
  | (rejected) e where "calculateMoveScore trie board tiles rack startRow startCol d = Some (reject e)"
      "perTileError e" "\<not> passesTileChecks trie board tiles rack startRow startCol d"
  | (completed) st where "scoreTiles trie board m startRow startCol d (enumerate 0 tiles) st0 = Continue st"
      "calculateMoveScore trie board tiles rack startRow startCol d
         = Some (finishMove (isBoardEmpty board) (length tiles) st)"
      "passesTileChecks trie board tiles rack startRow startCol d"
proof (cases "scoreTiles trie board m startRow startCol d (enumerate 0 tiles) st0")
  case (Continue st)
  then show ?thesis
    using completed[of st] by (simp add: calculateMoveScore_def passesTileChecks_def Let_def m_def st0_def)
next
  case (Return res)
  from scoreTiles_Return[OF Return] obtain e where "res = reject e" "perTileError e" by blast
  then show ?thesis
    using rejected[of e] Return by (simp add: calculateMoveScore_def passesTileChecks_def Let_def m_def st0_def)
next
  case Throw
  then have "startRow < 0 \<or> startCol < 0"
    using scoreTiles_not_Throw[of startRow startCol trie board m d "enumerate 0 tiles" st0] by force
  then show ?thesis
    using threw Throw by (simp add: calculateMoveScore_def passesTileChecks_def Let_def m_def st0_def)
qed

lemma finishMove_empty_valid:
  "isValid (finishMove True n st) \<Longrightarrow> touchesCenter st \<and> 2 \<le> n"
  by (auto simp add: finishMove_def split: if_splits)

subsection \<open>The cross words of a candidate\<close>

lemma newTilesMap_set:
  "(k, t) \<in> set (newTilesMap tiles startRow startCol d) \<longleftrightarrow>
     (\<exists>i<length tiles. k = (startRow + int i * drOf d, startCol + int i * dcOf d) \<and> t = tiles ! i)"
  by (auto simp add: newTilesMap_def in_set_enumerate_eq image_iff Bex_def)

lemma newTilesMap_keys_distinct:
  "distinct (map fst (newTilesMap tiles startRow startCol d))"
proof -
  have "map fst (newTilesMap tiles startRow startCol d)
        = map (\<lambda>i. (startRow + int i * drOf d, startCol + int i * dcOf d)) [0..<length tiles]"
    by (simp add: newTilesMap_def enumerate_eq_zip comp_def map_fst_zip_take split_def
                  map_zip_map[symmetric] zip_map_fst_snd)
       (induction tiles rule: rev_induct, simp_all)
  moreover have "inj_on (\<lambda>i. (startRow + int i * drOf d, startCol + int i * dcOf d)) (set [0..<length tiles])"
    by (auto simp add: inj_on_def drOf_def dcOf_def)
  ultimately show ?thesis by (simp add: distinct_map)
qed

lemma newTileAt_iff:
  "newTileAt (newTilesMap tiles startRow startCol d) k = Some t \<longleftrightarrow>
     (k, t) \<in> set (newTilesMap tiles startRow startCol d)"
proof -
  have "distinct (map fst (rev (newTilesMap tiles startRow startCol d)))"
    using newTilesMap_keys_distinct[of tiles startRow startCol d] by (simp add: rev_map[symmetric])
  from map_of_eq_Some_iff[OF this] show ?thesis by (simp add: newTileAt_def)
qed

lemma cross_line_free:
  assumes "((r, c), t) \<in> set (newTilesMap tiles startRow startCol d)" "1 \<le> k"
  shows "newTileAt (newTilesMap tiles startRow startCol d)
           (r - int k * drOf (crossOf d), c - int k * dcOf (crossOf d)) = None"
    and "newTileAt (newTilesMap tiles startRow startCol d)
           (r + int k * drOf (crossOf d), c + int k * dcOf (crossOf d)) = None"
proof -
  from assms(1) obtain i where i: "r = startRow + int i * drOf d" "c = startCol + int i * dcOf d"
    by (auto simp add: newTilesMap_set)
  have off: "(x, y) = (r - int k * drOf (crossOf d), c - int k * dcOf (crossOf d))
              \<or> (x, y) = (r + int k * drOf (crossOf d), c + int k * dcOf (crossOf d))
             \<Longrightarrow> ((x, y), t') \<notin> set (newTilesMap tiles startRow startCol d)" for x y t'
    using assms(2) i by (auto simp add: newTilesMap_set drOf_def dcOf_def crossOf_def)
  show "newTileAt (newTilesMap tiles startRow startCol d)
           (r - int k * drOf (crossOf d), c - int k * dcOf (crossOf d)) = None"
  proof (cases "newTileAt (newTilesMap tiles startRow startCol d)
           (r - int k * drOf (crossOf d), c - int k * dcOf (crossOf d))")
    case (Some t')
    with off[of "r - int k * drOf (crossOf d)" "c - int k * dcOf (crossOf d)" t'] show ?thesis
      by (simp add: newTileAt_iff)
  qed simp
  show "newTileAt (newTilesMap tiles startRow startCol d)
           (r + int k * drOf (crossOf d), c + int k * dcOf (crossOf d)) = None"
  proof (cases "newTileAt (newTilesMap tiles startRow startCol d)
           (r + int k * drOf (crossOf d), c + int k * dcOf (crossOf d))")
    case (Some t')
    with off[of "r + int k * drOf (crossOf d)" "c + int k * dcOf (crossOf d)" t'] show ?thesis
      by (simp add: newTileAt_iff)
  qed simp
qed

lemma scoreTiles_Continue_inBoard:
  assumes "scoreTiles trie board m startRow startCol d its st = Continue st'"
    and "((r, c), t) \<in> set (cellsOf startRow startCol d its)"
  shows "0 \<le> r \<and> r < 15 \<and> 0 \<le> c \<and> c < 15"
  using assms
proof (induction its arbitrary: st)
  case Nil
  then show ?case by simp
next
  case (Cons p its)
  obtain i t0 where p: "p = (i, t0)" by (cases p)
  from Cons.prems(1) obtain st1 where s1: "scoreTile trie board m startRow startCol d i t0 st = Continue st1"
      and s2: "scoreTiles trie board m startRow startCol d its st1 = Continue st'"
    by (auto simp add: p split: StepResult.splits)
  from Cons.prems(2) have "((r, c), t) = ((startRow + int i * drOf d, startCol + int i * dcOf d), t0)
      \<or> ((r, c), t) \<in> set (cellsOf startRow startCol d its)"
    by (simp add: p)
  then show ?case
  proof
    assume "((r, c), t) = ((startRow + int i * drOf d, startCol + int i * dcOf d), t0)"
    with scoreTile_Continue_inBoard[OF s1] show ?thesis by simp
  next
    assume "((r, c), t) \<in> set (cellsOf startRow startCol d its)"
    from Cons.IH[OF s2 this] show ?thesis .
  qed
qed

lemma cross_word_read:
  assumes "((r, c), t) \<in> set (newTilesMap tiles startRow startCol d)"
    and "0 \<le> r" "r < 15" "0 \<le> c" "c < 15"
    and "hasCrossWord board d r c"
  shows "getFullWordString board (newTilesMap tiles startRow startCol d) r c (crossOf d)
         = crossWordString board d r c t"
proof -
  let ?m = "newTilesMap tiles startRow startCol d"
  from assms(6) have "\<not> hasTileAt board r c" by (simp add: hasCrossWord_def)
  with assms(2-5) have em: "tile (board (nat r) (nat c)) = None"
    by (simp add: hasTileAt_def BOARD_SIZE_def)
  have nt: "newTileAt ?m (r, c) = Some t"
    using assms(1) by (simp add: newTileAt_iff)
  from getFullWordString_cross[of r c board ?m t "crossOf d", OF assms(2-5) em nt
         cross_line_free(1)[OF assms(1)] cross_line_free(2)[OF assms(1)]]
  show ?thesis
    by (simp add: crossWordString_def crossWordTiles_def tilesBehind_def tilesAhead_def)
qed

lemma crossWordsChecked_valid:
  assumes "\<And>r c t. ((r, c), t) \<in> set (newTilesMap tiles startRow startCol d)
             \<Longrightarrow> 0 \<le> r \<and> r < 15 \<and> 0 \<le> c \<and> c < 15"
  shows "crossWordsChecked trie board d (newTilesMap tiles startRow startCol d)
           (newTilesMap tiles startRow startCol d)
         = crossWordsValid trie board d (newTilesMap tiles startRow startCol d)"
  unfolding crossWordsChecked_def crossWordsValid_def list_all_iff
  using assms cross_word_read[of _ _ _ tiles startRow startCol d board]
  by (auto simp add: split_def)

text \<open>What an accepted move leaves of the loop.\<close>

lemma accepted_move:
  assumes "calculateMoveScore trie board tiles rack startRow startCol d = Some res" "isValid res"
  obtains st where
    "scoreTiles trie board (newTilesMap tiles startRow startCol d) startRow startCol d (enumerate 0 tiles)
       (initialState trie rack
          (getFullWordString board (newTilesMap tiles startRow startCol d) startRow startCol d))
     = Continue st"
    "allWordsValid st"
    "score res = totalScore st + mainWordScore st * mainWordMultiplier st
                   + (if tilesUsedFromRack st = 7 then 50 else 0)"
proof (cases trie board tiles rack startRow startCol d rule: calculateMoveScore_cases)
  case threw
  with assms(1) show ?thesis by simp
next
  case (rejected e)
  with assms(1,2) show ?thesis by auto
next
  case (completed st)
  from completed(2) assms(1) have res: "res = finishMove (isBoardEmpty board) (length tiles) st" by simp
  with assms(2) have "allWordsValid st"
    and "score res = totalScore st + mainWordScore st * mainWordMultiplier st
                        + (if tilesUsedFromRack st = 7 then 50 else 0)"
    by (auto simp add: finishMove_def split: if_splits)
  with completed(1) that show ?thesis by blast
qed

subsection \<open>The properties\<close>

text \<open>
  Claim C1 (a defect of the code). A candidate that places no new tile should never be
  valid. The validator accepts the tile A laid over the A that is already on the center
  cell, with no rack at all and whatever the dictionary is: the covered cell is
  occupied, so the candidate counts as touching the board, a one-letter main word is
  not looked up, and nothing checks that a tile came from the rack.
\<close>

theorem overlay_of_existing_tile_accepted:
  "calculateMoveScore trie boardWithA [createTile (asc ''A'')] [] 7 7 DirH
     = Some \<lparr>score = 1, isValid = True, error = None\<rparr>
   \<and> newTileCount boardWithA (newTilesMap [createTile (asc ''A'')] 7 7 DirH) = 0"
  by code_simp

text \<open>
  Claim C3. When a move is accepted, every newly placed tile with a board tile next to
  it across the play direction has had its cross word validated: the word made of the
  run of board tiles behind the tile, the tile, and the run of board tiles ahead of
  it. The score is the sum of the cross words' scores, each the new tile's face value
  times its cell's letter multiplier plus the face values of the board tiles of the
  word, times the word multiplier of the new tile's own cell; of the main word's score;
  and of the bonus for seven tiles from the rack.
\<close>

theorem cross_word_scoring:
  assumes "calculateMoveScore trie board tiles rack startRow startCol d = Some res" "isValid res"
  defines "cells \<equiv> newTilesMap tiles startRow startCol d"
  shows "score res = crossWordsTotal board d cells + mainWordTotal board cells
                       + (if newTileCount board cells = 7 then 50 else 0)
         \<and> crossWordsValid trie board d cells"
proof -
  from accepted_move[OF assms(1,2)] obtain st where
    run: "scoreTiles trie board cells startRow startCol d (enumerate 0 tiles)
            (initialState trie rack (getFullWordString board cells startRow startCol d)) = Continue st"
    and v: "allWordsValid st"
    and sc: "score res = totalScore st + mainWordScore st * mainWordMultiplier st
                        + (if tilesUsedFromRack st = 7 then 50 else 0)"
    unfolding cells_def by blast
  note inv = scoreTiles_Continue[OF run]
  have cells: "cellsOf startRow startCol d (enumerate 0 tiles) = cells"
    by (simp add: cells_def newTilesMap_cellsOf)
  have inb: "0 \<le> r \<and> r < 15 \<and> 0 \<le> c \<and> c < 15" if "((r, c), t) \<in> set cells" for r c t
    using scoreTiles_Continue_inBoard[OF run] that by (simp add: cells)
  from v inv(7) have "crossWordsChecked trie board d cells cells"
    by (simp add: cells)
  then have valid: "crossWordsValid trie board d cells"
    using crossWordsChecked_valid[of tiles startRow startCol d trie board] inb
    unfolding cells_def by blast
  have "score res = crossWordsTotal board d cells + mainWordTotal board cells
                       + (if newTileCount board cells = 7 then 50 else 0)"
    using sc inv(3,4,5,6) unfolding cells
    by (auto simp add: mainWordTotal_def)
  with valid show ?thesis by simp
qed

text \<open>
  The instance: CA played at row 6, columns 6 and 7, above the A of the center cell. The
  cross word of the new A is AA, with the board tile A ahead of it and none behind; it
  scores 2. The main word CA scores 5 (the C on a double-letter cell).
\<close>

theorem cross_word_scoring_witness:
  "calculateMoveScore (Some demoTrie) boardWithA (parseInputWord (asc ''CA'')) [asc ''C'', asc ''A''] 6 6 DirH
     = Some \<lparr>score = 7, isValid = True, error = None\<rparr>
   \<and> crossWordString boardWithA DirH 6 7 (createTile (asc ''A'')) = asc ''AA''
   \<and> crossWordScore boardWithA DirH 6 7 (createTile (asc ''A'')) = 2
   \<and> crossWordsTotal boardWithA DirH (newTilesMap (parseInputWord (asc ''CA'')) 6 6 DirH) = 2
   \<and> mainWordTotal boardWithA (newTilesMap (parseInputWord (asc ''CA'')) 6 6 DirH) = 5
   \<and> newTileCount boardWithA (newTilesMap (parseInputWord (asc ''CA'')) 6 6 DirH) = 2
   \<and> crossWordsValid (Some demoTrie) boardWithA DirH (newTilesMap (parseInputWord (asc ''CA'')) 6 6 DirH)"
proof -
  have e: "calculateMoveScore (Some demoTrie) boardWithA (parseInputWord (asc ''CA'')) [asc ''C'', asc ''A''] 6 6 DirH
     = Some \<lparr>score = 7, isValid = True, error = None\<rparr>"
    by code_simp
  have v: "isValid \<lparr>score = 7, isValid = True, error = None\<rparr>" by simp
  have s: "crossWordString boardWithA DirH 6 7 (createTile (asc ''A'')) = asc ''AA''"
    by code_simp
  have p: "crossWordScore boardWithA DirH 6 7 (createTile (asc ''A'')) = 2"
    by code_simp
  have c: "crossWordsTotal boardWithA DirH (newTilesMap (parseInputWord (asc ''CA'')) 6 6 DirH) = 2"
    by code_simp
  have n: "newTileCount boardWithA (newTilesMap (parseInputWord (asc ''CA'')) 6 6 DirH) = 2"
    by code_simp
  from cross_word_scoring[OF e v] s p c n e show ?thesis by simp
qed

text \<open>
  Claim C4, as amended. On an empty board an accepted candidate covers the center cell
  and has at least two tiles. With non-negative start coordinates, a candidate on an
  empty board that misses the center, or covers it with fewer than two tiles, and a
  candidate on a non-empty board none of whose cells is occupied or next to an occupied
  cell, is rejected: with the error of the rule (MissingCenter, TooShortFirstMove,
  NotConnected) when the loop over the tiles runs to its end, and with a per-tile error
  (OutOfBounds, CellConflict, MissingRackLetter, MissingBlank) otherwise.
\<close>

theorem placement_rules:
  fixes trie board tiles rack startRow startCol d
  defines "cells \<equiv> newTilesMap tiles startRow startCol d"
  defines "result \<equiv> calculateMoveScore trie board tiles rack startRow startCol d"
  defines "passes \<equiv> passesTileChecks trie board tiles rack startRow startCol d"
  shows
    "(isBoardEmpty board \<and> (\<exists>res. result = Some res \<and> isValid res)
        \<longrightarrow> coversCenter cells \<and> 2 \<le> length tiles)
     \<and> (0 \<le> startRow \<and> 0 \<le> startCol \<and> isBoardEmpty board \<and> \<not> coversCenter cells
        \<longrightarrow> (\<exists>e. result = Some (reject e) \<and> (if passes then e = MissingCenter else perTileError e)))
     \<and> (0 \<le> startRow \<and> 0 \<le> startCol \<and> isBoardEmpty board \<and> coversCenter cells \<and> length tiles < 2
        \<longrightarrow> (\<exists>e. result = Some (reject e) \<and> (if passes then e = TooShortFirstMove else perTileError e)))
     \<and> (0 \<le> startRow \<and> 0 \<le> startCol \<and> \<not> isBoardEmpty board \<and> \<not> touchesAny board cells
        \<longrightarrow> (\<exists>e. result = Some (reject e) \<and> (if passes then e = NotConnected else perTileError e)))"
proof (cases trie board tiles rack startRow startCol d rule: calculateMoveScore_cases)
  case threw
  then show ?thesis unfolding result_def by auto
next
  case (rejected e)
  then show ?thesis unfolding result_def passes_def by auto
next
  case (completed st)
  note inv = scoreTiles_Continue[OF completed(1)]
  have cells: "cellsOf startRow startCol d (enumerate 0 tiles) = cells"
    by (simp add: cells_def newTilesMap_cellsOf)
  have tc: "touchesCenter st = coversCenter cells" using inv(1) by (simp add: cells)
  have te: "touchesExisting st = touchesAny board cells" using inv(2) by (simp add: cells)
  show ?thesis
    unfolding result_def passes_def completed(2) using completed(3) tc te
    by (auto simp add: finishMove_def reject_def split: if_splits)
qed

text \<open>
  The instances: CA at the top left corner of the empty board, the single tile C on the
  center cell, CA at the top left corner of the board that holds an A, and CASA through
  the center cell.
\<close>

theorem placement_rules_witness:
  "calculateMoveScore None createInitialBoard (parseInputWord (asc ''CA''))
       [asc ''C'', asc ''A'', asc ''S'', asc ''A''] 0 0 DirH = Some (reject MissingCenter)
   \<and> calculateMoveScore None createInitialBoard (parseInputWord (asc ''C''))
       [asc ''C'', asc ''A'', asc ''S'', asc ''A''] 7 7 DirH = Some (reject TooShortFirstMove)
   \<and> calculateMoveScore None boardWithA (parseInputWord (asc ''CA''))
       [asc ''C'', asc ''A'', asc ''S'', asc ''A''] 0 0 DirH = Some (reject NotConnected)
   \<and> coversCenter (newTilesMap (parseInputWord (asc ''CASA'')) 7 4 DirH)"
proof -
  let ?rack = "[asc ''C'', asc ''A'', asc ''S'', asc ''A'']"
  have be: "isBoardEmpty createInitialBoard" by code_simp
  have nbe: "\<not> isBoardEmpty boardWithA" by code_simp
  have p1: "passesTileChecks None createInitialBoard (parseInputWord (asc ''CA'')) ?rack 0 0 DirH" by code_simp
  have c1: "\<not> coversCenter (newTilesMap (parseInputWord (asc ''CA'')) 0 0 DirH)" by code_simp
  have p2: "passesTileChecks None createInitialBoard (parseInputWord (asc ''C'')) ?rack 7 7 DirH" by code_simp
  have c2: "coversCenter (newTilesMap (parseInputWord (asc ''C'')) 7 7 DirH)" by code_simp
  have l2: "length (parseInputWord (asc ''C'')) < 2" by code_simp
  have p3: "passesTileChecks None boardWithA (parseInputWord (asc ''CA'')) ?rack 0 0 DirH" by code_simp
  have c3: "\<not> touchesAny boardWithA (newTilesMap (parseInputWord (asc ''CA'')) 0 0 DirH)" by code_simp
  have e4: "calculateMoveScore None createInitialBoard (parseInputWord (asc ''CASA'')) ?rack 7 4 DirH
              = Some \<lparr>score = 10, isValid = True, error = None\<rparr>" by code_simp
  have a1: "calculateMoveScore None createInitialBoard (parseInputWord (asc ''CA'')) ?rack 0 0 DirH
              = Some (reject MissingCenter)"
    using placement_rules[of createInitialBoard None "parseInputWord (asc ''CA'')" ?rack 0 0 DirH] be p1 c1
    by auto
  have a2: "calculateMoveScore None createInitialBoard (parseInputWord (asc ''C'')) ?rack 7 7 DirH
              = Some (reject TooShortFirstMove)"
    using placement_rules[of createInitialBoard None "parseInputWord (asc ''C'')" ?rack 7 7 DirH] be p2 c2 l2
    by auto
  have a3: "calculateMoveScore None boardWithA (parseInputWord (asc ''CA'')) ?rack 0 0 DirH
              = Some (reject NotConnected)"
    using placement_rules[of boardWithA None "parseInputWord (asc ''CA'')" ?rack 0 0 DirH] nbe p3 c3
    by auto
  have a4: "coversCenter (newTilesMap (parseInputWord (asc ''CASA'')) 7 4 DirH)"
    using placement_rules[of createInitialBoard None "parseInputWord (asc ''CASA'')" ?rack 7 4 DirH] be e4
    by auto
  from a1 a2 a3 a4 show ?thesis by simp
qed

text \<open>
  Claim C4 as it was stated fails where a per-tile check comes first: CA at the top
  left corner of the empty board with an empty rack is rejected for the missing letter
  C, not for missing the center.
\<close>

theorem placement_rules_counterexample:
  "isBoardEmpty createInitialBoard
   \<and> \<not> coversCenter (newTilesMap (parseInputWord (asc ''CA'')) 0 0 DirH)
   \<and> calculateMoveScore None createInitialBoard (parseInputWord (asc ''CA'')) [] 0 0 DirH
       = Some (reject (MissingRackLetter (asc ''C'')))
   \<and> reject (MissingRackLetter (asc ''C'')) \<noteq> reject MissingCenter"
  by code_simp

subsection \<open>Candidates that leave the board\<close>

text \<open>
  The loop runs through a list of tiles in two parts, and whether a tile is rejected, and
  with which error, depends on the state only through the rack that is left.
\<close>

lemma scoreTiles_append:
  "scoreTiles trie board m startRow startCol d (xs @ ys) st =
     (case scoreTiles trie board m startRow startCol d xs st of
        Continue st' \<Rightarrow> scoreTiles trie board m startRow startCol d ys st'
      | Return res \<Rightarrow> Return res
      | Throw \<Rightarrow> Throw)"
proof (induction xs arbitrary: st)
  case Nil
  then show ?case by simp
next
  case (Cons p xs)
  obtain i t where p: "p = (i, t)" by (cases p)
  show ?case
    by (cases "scoreTile trie board m startRow startCol d i t st") (simp_all add: p Cons.IH)
qed

lemma placeNewTile_rack_only:
  assumes "rackAvailable st1 = rackAvailable st2"
  shows "sameOutcome (placeNewTile trie board m d r c cell t st1) (placeNewTile trie' board m' d r c cell t st2)"
  using assms by (auto simp add: placeNewTile_def Let_def split: option.splits)

lemma scoreTile_rack_only:
  assumes "rackAvailable st1 = rackAvailable st2"
  shows "sameOutcome (scoreTile trie board m startRow startCol d i t st1)
                     (scoreTile trie' board m' startRow startCol d i t st2)"
  using assms
  by (auto simp add: scoreTile_def Let_def placeNewTile_rack_only split: option.splits)

lemma scoreTiles_rack_only:
  assumes "rackAvailable st1 = rackAvailable st2"
  shows "sameOutcome (scoreTiles trie board m startRow startCol d its st1)
                     (scoreTiles trie' board m' startRow startCol d its st2)"
  using assms
proof (induction its arbitrary: st1 st2)
  case Nil
  then show ?case by simp
next
  case (Cons p its)
  obtain i t where p: "p = (i, t)" by (cases p)
  from scoreTile_rack_only[OF Cons.prems, of trie board m startRow startCol d i t trie' m']
  show ?case
    by (cases "scoreTile trie board m startRow startCol d i t st1";
        cases "scoreTile trie' board m' startRow startCol d i t st2")
       (simp_all add: p Cons.IH)
qed

lemma scoreTile_OutOfBounds_only:
  "scoreTile trie board m startRow startCol d i t st = Return (reject OutOfBounds) \<Longrightarrow>
     startRow + int i * drOf d \<ge> 15 \<or> startCol + int i * dcOf d \<ge> 15"
  by (auto simp add: scoreTile_def placeNewTile_def Let_def BOARD_SIZE_def
           split: if_splits option.splits)

lemma scoreTiles_OutOfBounds_only:
  "scoreTiles trie board m startRow startCol d its st = Return (reject OutOfBounds) \<Longrightarrow>
     coversOutside (cellsOf startRow startCol d its)"
proof (induction its arbitrary: st)
  case Nil
  then show ?case by simp
next
  case (Cons p its)
  obtain i t where p: "p = (i, t)" by (cases p)
  show ?case
  proof (cases "scoreTile trie board m startRow startCol d i t st")
    case (Continue st')
    with Cons.prems have "scoreTiles trie board m startRow startCol d its st' = Return (reject OutOfBounds)"
      by (simp add: p)
    from Cons.IH[OF this] show ?thesis by (simp add: p coversOutside_def)
  next
    case (Return res)
    with Cons.prems have "res = reject OutOfBounds" by (simp add: p)
    with scoreTile_OutOfBounds_only[of trie board m startRow startCol d i t st] Return
    show ?thesis by (auto simp add: p coversOutside_def)
  next
    case Throw
    with Cons.prems show ?thesis by (simp add: p)
  qed
qed

lemma firstOutside_facts:
  assumes "coversOutside (newTilesMap tiles startRow startCol d)"
  defines "k \<equiv> firstOutside (newTilesMap tiles startRow startCol d)"
  shows "k < length tiles"
    and "startRow + int k * drOf d \<ge> 15 \<or> startCol + int k * dcOf d \<ge> 15"
    and "\<not> coversOutside (cellsOf startRow startCol d (enumerate 0 (take k tiles)))"
proof -
  let ?cells = "newTilesMap tiles startRow startCol d"
  let ?P = "\<lambda>((r, c), t). r < (15::int) \<and> c < (15::int)"
  have len: "length ?cells = length tiles" by (simp add: newTilesMap_def)
  from assms(1) obtain x where "x \<in> set ?cells" "\<not> ?P x"
    by (auto simp add: coversOutside_def list_ex_iff)
  then have "takeWhile ?P ?cells \<noteq> ?cells"
    by (auto simp add: takeWhile_eq_all_conv)
  then have lt: "length (takeWhile ?P ?cells) < length ?cells"
    using length_takeWhile_le[of ?P ?cells] takeWhile_eq_take[of ?P ?cells]
    by (metis le_neq_implies_less take_all_iff order_refl)
  then show kl: "k < length tiles" by (simp add: k_def firstOutside_def len)
  from nth_length_takeWhile[OF lt] have "\<not> ?P (?cells ! k)"
    by (simp add: k_def firstOutside_def)
  moreover have "?cells ! k = ((startRow + int k * drOf d, startCol + int k * dcOf d), tiles ! k)"
    using kl by (simp add: newTilesMap_def nth_enumerate_eq)
  ultimately show "startRow + int k * drOf d \<ge> 15 \<or> startCol + int k * dcOf d \<ge> 15"
    by auto
  have "cellsOf startRow startCol d (enumerate 0 (take k tiles)) = take k ?cells"
    using kl by (simp add: newTilesMap_def cellsOf_def take_map enumerate_eq_zip take_zip min_def)
  also have "\<dots> = takeWhile ?P ?cells"
    unfolding k_def firstOutside_def by (rule takeWhile_eq_take[symmetric])
  finally have "cellsOf startRow startCol d (enumerate 0 (take k tiles)) = takeWhile ?P ?cells" .
  then show "\<not> coversOutside (cellsOf startRow startCol d (enumerate 0 (take k tiles)))"
    by (auto simp add: coversOutside_def list_ex_iff dest: set_takeWhileD)
qed

lemma passesTileChecks_iff:
  "passesTileChecks trie board tiles rack startRow startCol d \<longleftrightarrow>
     (\<exists>st. scoreTiles trie board (newTilesMap tiles startRow startCol d) startRow startCol d
             (enumerate 0 tiles)
             (initialState trie rack
                (getFullWordString board (newTilesMap tiles startRow startCol d) startRow startCol d))
           = Continue st)"
  by (auto simp add: passesTileChecks_def Let_def split: StepResult.splits)

text \<open>
  Claim C5, as amended. With non-negative start coordinates, a candidate that covers a
  cell beyond row or column 14 is rejected with score 0, and the call does not throw.
  The error is OutOfBounds when the tiles before the first cell outside the board pass
  their own checks, that is, when the candidate cut off before that cell runs through
  the loop; otherwise it is the error, different from OutOfBounds, with which the
  candidate cut off there is rejected (CellConflict, MissingRackLetter or
  MissingBlank). It is OutOfBounds when the start cell itself is outside.
\<close>

theorem outOfBounds_rejected:
  fixes trie board tiles rack startRow startCol d
  defines "inside \<equiv> take (firstOutside (newTilesMap tiles startRow startCol d)) tiles"
  assumes "0 \<le> startRow" "0 \<le> startCol"
    and "coversOutside (newTilesMap tiles startRow startCol d)"
  shows "\<exists>e. calculateMoveScore trie board tiles rack startRow startCol d = Some (reject e)
            \<and> perTileError e
            \<and> (if passesTileChecks trie board inside rack startRow startCol d
                then e = OutOfBounds
                else e \<noteq> OutOfBounds
                     \<and> calculateMoveScore trie board inside rack startRow startCol d = Some (reject e))
            \<and> (startRow \<ge> 15 \<or> startCol \<ge> 15 \<longrightarrow> e = OutOfBounds)"
proof -
  define k where "k = firstOutside (newTilesMap tiles startRow startCol d)"
  note f = firstOutside_facts[OF assms(4), folded k_def]
  let ?m = "newTilesMap tiles startRow startCol d"
  let ?st = "initialState trie rack (getFullWordString board ?m startRow startCol d)"
  let ?m' = "newTilesMap inside startRow startCol d"
  let ?st' = "initialState trie rack (getFullWordString board ?m' startRow startCol d)"
  let ?pre = "enumerate 0 (take k tiles)"
  have ins: "inside = take k tiles" by (simp add: inside_def k_def)
  have split: "enumerate 0 tiles = ?pre @ (k, tiles ! k) # enumerate (Suc k) (drop (Suc k) tiles)"
  proof -
    have "tiles = take k tiles @ tiles ! k # drop (Suc k) tiles"
      using f(1) by (simp add: id_take_nth_drop)
    then have "enumerate 0 tiles = enumerate 0 (take k tiles @ tiles ! k # drop (Suc k) tiles)"
      by simp
    also have "\<dots> = ?pre @ (k, tiles ! k) # enumerate (Suc k) (drop (Suc k) tiles)"
      using f(1) by (simp add: enumerate_append_eq min_def)
    finally show ?thesis .
  qed
  have out: "scoreTile trie board ?m startRow startCol d k (tiles ! k) st = Return (reject OutOfBounds)" for st
    using scoreTile_OutOfBounds[of startRow k d startCol] f(2) by simp
  have full: "scoreTiles trie board ?m startRow startCol d (enumerate 0 tiles) ?st =
     (case scoreTiles trie board ?m startRow startCol d ?pre ?st of
        Continue st' \<Rightarrow> Return (reject OutOfBounds)
      | Return res \<Rightarrow> Return res
      | Throw \<Rightarrow> Throw)"
    unfolding split scoreTiles_append
    by (simp add: out split: StepResult.splits)
  have same: "sameOutcome (scoreTiles trie board ?m startRow startCol d ?pre ?st)
                          (scoreTiles trie board ?m' startRow startCol d ?pre ?st')"
    by (rule scoreTiles_rack_only) (simp add: initialState_def Let_def)
  have start: "e = OutOfBounds" if "startRow \<ge> 15 \<or> startCol \<ge> 15"
    and "scoreTiles trie board ?m startRow startCol d (enumerate 0 tiles) ?st = Return (reject e)" for e
  proof -
    from assms(4) obtain t ts where ts: "tiles = t # ts"
      by (cases tiles) (auto simp add: coversOutside_def newTilesMap_def)
    have "scoreTile trie board ?m startRow startCol d 0 t ?st = Return (reject OutOfBounds)"
      using scoreTile_OutOfBounds[of startRow 0 d startCol] that(1) by simp
    then have "scoreTiles trie board ?m startRow startCol d (enumerate 0 tiles) ?st = Return (reject OutOfBounds)"
      unfolding ts by simp
    with that(2) show ?thesis by simp
  qed
  show ?thesis
  proof (cases "scoreTiles trie board ?m' startRow startCol d ?pre ?st'")
    case (Continue b)
    with same obtain a where a: "scoreTiles trie board ?m startRow startCol d ?pre ?st = Continue a"
      by (cases "scoreTiles trie board ?m startRow startCol d ?pre ?st") simp_all
    have p: "passesTileChecks trie board inside rack startRow startCol d"
      unfolding passesTileChecks_iff ins using Continue unfolding ins by blast
    have "scoreTiles trie board ?m startRow startCol d (enumerate 0 tiles) ?st = Return (reject OutOfBounds)"
      unfolding full a by simp
    then have "calculateMoveScore trie board tiles rack startRow startCol d = Some (reject OutOfBounds)"
      by (simp add: calculateMoveScore_def Let_def)
    with p show ?thesis by simp
  next
    case (Return y)
    with same have a: "scoreTiles trie board ?m startRow startCol d ?pre ?st = Return y"
      by (cases "scoreTiles trie board ?m startRow startCol d ?pre ?st") simp_all
    from scoreTiles_Return[OF Return] obtain e where e: "y = reject e" "perTileError e" by blast
    have ne: "e \<noteq> OutOfBounds"
    proof
      assume "e = OutOfBounds"
      with Return e(1) have "scoreTiles trie board ?m' startRow startCol d ?pre ?st' = Return (reject OutOfBounds)"
        by simp
      from scoreTiles_OutOfBounds_only[OF this] f(3) show False by simp
    qed
    have np: "\<not> passesTileChecks trie board inside rack startRow startCol d"
      unfolding passesTileChecks_iff ins using Return unfolding ins by simp
    have pc: "calculateMoveScore trie board inside rack startRow startCol d = Some (reject e)"
      using Return e(1) unfolding ins by (simp add: calculateMoveScore_def Let_def)
    have fr: "scoreTiles trie board ?m startRow startCol d (enumerate 0 tiles) ?st = Return (reject e)"
      unfolding full a using e(1) by simp
    then have "calculateMoveScore trie board tiles rack startRow startCol d = Some (reject e)"
      by (simp add: calculateMoveScore_def Let_def)
    with e(2) ne np pc start[OF _ fr] show ?thesis by auto
  next
    case Throw
    with scoreTiles_not_Throw[OF assms(2,3), of trie board ?m' d ?pre ?st'] show ?thesis by simp
  qed
qed

text \<open>
  The instance: CA at row 0, column 14. The first cell outside is that of the A, and
  the candidate cut off before it is the single tile C. With both letters on the rack
  the C passes, and the error is OutOfBounds; with an empty rack the C is rejected, and
  the result is that of the single tile C.
\<close>

theorem outOfBounds_rejected_witness:
  "(0::int) \<le> 0 \<and> (0::int) \<le> 14
   \<and> coversOutside (newTilesMap (parseInputWord (asc ''CA'')) 0 14 DirH)
   \<and> take (firstOutside (newTilesMap (parseInputWord (asc ''CA'')) 0 14 DirH)) (parseInputWord (asc ''CA''))
        = parseInputWord (asc ''C'')
   \<and> passesTileChecks None createInitialBoard (parseInputWord (asc ''C'')) [asc ''C'', asc ''A''] 0 14 DirH
   \<and> calculateMoveScore None createInitialBoard (parseInputWord (asc ''CA'')) [asc ''C'', asc ''A''] 0 14 DirH
        = Some (reject OutOfBounds)
   \<and> \<not> passesTileChecks None createInitialBoard (parseInputWord (asc ''C'')) [] 0 14 DirH
   \<and> calculateMoveScore None createInitialBoard (parseInputWord (asc ''CA'')) [] 0 14 DirH
        = calculateMoveScore None createInitialBoard (parseInputWord (asc ''C'')) [] 0 14 DirH"
proof -
  have h: "coversOutside (newTilesMap (parseInputWord (asc ''CA'')) 0 14 DirH)" by code_simp
  have k: "take (firstOutside (newTilesMap (parseInputWord (asc ''CA'')) 0 14 DirH)) (parseInputWord (asc ''CA''))
        = parseInputWord (asc ''C'')" by code_simp
  have p: "passesTileChecks None createInitialBoard (parseInputWord (asc ''C'')) [asc ''C'', asc ''A''] 0 14 DirH"
    by code_simp
  have q: "\<not> passesTileChecks None createInitialBoard (parseInputWord (asc ''C'')) [] 0 14 DirH"
    by code_simp
  from outOfBounds_rejected[of 0 14 "parseInputWord (asc ''CA'')" DirH None createInitialBoard "[asc ''C'', asc ''A'']", OF _ _ h]
  have a: "calculateMoveScore None createInitialBoard (parseInputWord (asc ''CA'')) [asc ''C'', asc ''A''] 0 14 DirH
        = Some (reject OutOfBounds)"
    unfolding k using p by auto
  from outOfBounds_rejected[of 0 14 "parseInputWord (asc ''CA'')" DirH None createInitialBoard "[]", OF _ _ h]
  have b: "calculateMoveScore None createInitialBoard (parseInputWord (asc ''CA'')) [] 0 14 DirH
        = calculateMoveScore None createInitialBoard (parseInputWord (asc ''C'')) [] 0 14 DirH"
    unfolding k using q by auto
  from h k p q a b show ?thesis by simp
qed

text \<open>
  Claim C5 as it was stated fails where an earlier tile is rejected first: the same
  candidate with an empty rack is rejected for the missing letter C, not as out of
  bounds.
\<close>

theorem outOfBounds_counterexample:
  "coversOutside (newTilesMap (parseInputWord (asc ''CA'')) 0 14 DirH)
   \<and> calculateMoveScore None createInitialBoard (parseInputWord (asc ''CA'')) [] 0 14 DirH
       = Some (reject (MissingRackLetter (asc ''C'')))
   \<and> reject (MissingRackLetter (asc ''C'')) \<noteq> reject OutOfBounds"
  by code_simp

text \<open>
  With a negative start coordinate the loop reads a cell outside the grid before any
  check, and the call throws.
\<close>

lemma negative_start_throws:
  "calculateMoveScore None createInitialBoard (parseInputWord (asc ''CA'')) [asc ''C'', asc ''A''] (-1) 0 DirH = None"
  by code_simp

subsection \<open>A blank tile in the score\<close>

lemma sum_list_without:
  fixes f :: "'a \<Rightarrow> int"
  assumes "i < length xs"
  shows "sum_list (map f xs) = sum_list (map f (take i xs @ drop (Suc i) xs)) + f (xs ! i)"
proof -
  have "sum_list (map f (take i xs @ xs ! i # drop (Suc i) xs))
        = sum_list (map f (take i xs @ drop (Suc i) xs)) + f (xs ! i)"
    by simp
  then show ?thesis
    using id_take_nth_drop[OF assms, symmetric] by simp
qed

text \<open>
  Claim C6. A tile that \<open>createTile\<close> makes blank has the value 0, whatever letter it
  stands for, and so it adds nothing of its own to a score that \<open>calculateMoveScore\<close>
  computes. For an accepted move with a blank tile at index \<open>i\<close>, the score is the
  cross words and the main-word letters of the other tiles, and at the cell of the
  blank only the board tiles of its cross word, times the word multiplier of the cell,
  and the board tile it lies on, if any. The word multipliers of all the cells and the
  bonus for seven tiles are as for any tile.
\<close>

theorem blank_tile_scores_zero:
  fixes trie board tiles rack startRow startCol d i ch
  defines "cells \<equiv> newTilesMap tiles startRow startCol d"
  defines "r \<equiv> startRow + int i * drOf d" and "c \<equiv> startCol + int i * dcOf d"
  defines "others \<equiv> take i cells @ drop (Suc i) cells"
  assumes "calculateMoveScore trie board tiles rack startRow startCol d = Some res" "isValid res"
    and "i < length tiles" "tiles ! i = createTile ch" "isBlank (createTile ch)"
  shows "tvalue (tiles ! i) = 0
     \<and> score res =
         crossWordsTotal board d others
         + (if hasCrossWord board d r c
            then boardTilesValue board d r c * getMultiplierVal (multiplier (board (nat r) (nat c))) True
            else 0)
         + (sum_list (map (\<lambda>((r, c), t). mainLetterScore board r c t) others)
            + (case tile (board (nat r) (nat c)) of Some existing \<Rightarrow> tvalue existing | None \<Rightarrow> 0))
           * prod_list (map (\<lambda>((r, c), t). mainWordFactor board r c) cells)
         + (if newTileCount board cells = 7 then 50 else 0)"
proof -
  have zero: "tvalue (tiles ! i) = 0"
    using assms(8,9) createTile_blank_value[of ch] by simp
  from accepted_move[OF assms(5,6)] obtain st where
    run: "scoreTiles trie board cells startRow startCol d (enumerate 0 tiles)
            (initialState trie rack (getFullWordString board cells startRow startCol d)) = Continue st"
    and sc: "score res = totalScore st + mainWordScore st * mainWordMultiplier st
                        + (if tilesUsedFromRack st = 7 then 50 else 0)"
    unfolding cells_def by blast
  note inv = scoreTiles_Continue[OF run]
  have cells: "cellsOf startRow startCol d (enumerate 0 tiles) = cells"
    by (simp add: cells_def newTilesMap_cellsOf)
  have len: "i < length cells" using assms(7) by (simp add: cells_def newTilesMap_def)
  have at: "cells ! i = ((r, c), tiles ! i)"
    using assms(7) by (simp add: cells_def r_def c_def newTilesMap_def nth_enumerate_eq)
  have cross: "crossWordsTotal board d cells
      = crossWordsTotal board d others
        + (if hasCrossWord board d r c
           then boardTilesValue board d r c * getMultiplierVal (multiplier (board (nat r) (nat c))) True
           else 0)"
    unfolding crossWordsTotal_def others_def
    by (subst sum_list_without[OF len]) (simp add: at crossWordScore_def zero)
  have main: "sum_list (map (\<lambda>((r, c), t). mainLetterScore board r c t) cells)
      = sum_list (map (\<lambda>((r, c), t). mainLetterScore board r c t) others)
        + (case tile (board (nat r) (nat c)) of Some existing \<Rightarrow> tvalue existing | None \<Rightarrow> 0)"
    unfolding others_def
    by (subst sum_list_without[OF len]) (simp add: at mainLetterScore_def zero split: option.splits)
  have "score res = crossWordsTotal board d cells + mainWordTotal board cells
                       + (if newTileCount board cells = 7 then 50 else 0)"
    using sc inv(3,4,5,6) unfolding cells
    by (auto simp add: mainWordTotal_def)
  then show ?thesis
    unfolding cross mainWordTotal_def main using zero by simp
qed

text \<open>
  The instance: Ca played at row 6, columns 6 and 7, above the A of the center cell,
  with the blank for the a. The blank's cross word aA scores the 1 of the board tile A,
  and the main word scores the 4 of the C on its double-letter cell: 5 in all, where
  the same move with the tile A scores 7.
\<close>

theorem blank_tile_scores_zero_witness:
  "calculateMoveScore (Some demoTrie) boardWithA (parseInputWord (asc ''Ca'')) [asc ''C'', asc ''?''] 6 6 DirH
     = Some \<lparr>score = 5, isValid = True, error = None\<rparr>
   \<and> parseInputWord (asc ''Ca'') ! 1 = createTile (asc ''a'')
   \<and> isBlank (createTile (asc ''a''))
   \<and> tvalue (parseInputWord (asc ''Ca'') ! 1) = 0
   \<and> hasCrossWord boardWithA DirH 6 7
   \<and> boardTilesValue boardWithA DirH 6 7 = 1
   \<and> calculateMoveScore (Some demoTrie) boardWithA (parseInputWord (asc ''CA'')) [asc ''C'', asc ''A''] 6 6 DirH
     = Some \<lparr>score = 7, isValid = True, error = None\<rparr>"
proof -
  have e: "calculateMoveScore (Some demoTrie) boardWithA (parseInputWord (asc ''Ca'')) [asc ''C'', asc ''?''] 6 6 DirH
     = Some \<lparr>score = 5, isValid = True, error = None\<rparr>"
    by code_simp
  have v: "isValid \<lparr>score = 5, isValid = True, error = None\<rparr>" by simp
  have l: "(1::nat) < length (parseInputWord (asc ''Ca''))" by code_simp
  have t: "parseInputWord (asc ''Ca'') ! 1 = createTile (asc ''a'')" by code_simp
  have b: "isBlank (createTile (asc ''a''))" by code_simp
  have h: "hasCrossWord boardWithA DirH 6 7" by code_simp
  have p: "boardTilesValue boardWithA DirH 6 7 = 1" by code_simp
  have e2: "calculateMoveScore (Some demoTrie) boardWithA (parseInputWord (asc ''CA'')) [asc ''C'', asc ''A''] 6 6 DirH
     = Some \<lparr>score = 7, isValid = True, error = None\<rparr>"
    by code_simp
  from blank_tile_scores_zero[OF e v l t b] e t b h p e2 show ?thesis by simp
qed

text \<open>
  With no dictionary loaded, no result of the validator carries the error of an
  invalid word.
\<close>

lemma no_dictionary_error:
  assumes "calculateMoveScore None board tiles rack startRow startCol d = Some res"
  shows "error res \<noteq> Some (InvalidWord w)"
proof (cases "None :: FrozenTrie option" board tiles rack startRow startCol d rule: calculateMoveScore_cases)
  case threw
  with assms show ?thesis by simp
next
  case (rejected e)
  with assms have "res = reject e" by simp
  with rejected(2) show ?thesis by (auto simp add: reject_def)
next
  case (completed st)
  note inv = scoreTiles_Continue[OF completed(1)]
  have "crossWordsChecked None board d m cells" for m cells
    by (induction cells) (auto simp add: crossWordsChecked_def)
  with inv(7) have "allWordsValid st" by simp
  moreover from completed(2) assms have "res = finishMove (isBoardEmpty board) (length tiles) st" by simp
  ultimately show ?thesis
    by (auto simp add: finishMove_def reject_def)
qed

section \<open>The move finder against the validator\<close>

lemma set_sliceFromStart: "set (sliceFromStart n xs) \<subseteq> set xs"
  by (auto simp add: sliceFromStart_def dest: in_set_takeD)

lemma set_sortByScore: "set (sortByScore ms) = set ms"
  by (simp add: sortByScore_def)

lemma mapSet_values: "snd ` set (mapSet k v ps) \<subseteq> insert v (snd ` set ps)"
  by (induction ps) auto

lemma dedupeStep_values: "snd ` set (dedupeStep m acc) \<subseteq> insert m (snd ` set acc)"
  using mapSet_values[of "moveKey m" m acc]
  by (auto simp add: dedupeStep_def split: option.splits)

lemma fold_dedupeStep_values: "snd ` set (fold dedupeStep ms acc) \<subseteq> set ms \<union> snd ` set acc"
proof (induction ms arbitrary: acc)
  case Nil
  then show ?case by simp
next
  case (Cons m ms)
  from Cons.IH[of "dedupeStep m acc"] dedupeStep_values[of m acc]
  show ?case by auto
qed

lemma set_dedupe: "set (dedupe ms) \<subseteq> set ms"
  using fold_dedupeStep_values[of ms "[]"] by (simp add: dedupe_def)

lemma scoreMoves_member:
  "scoreMoves trie board rack moves = Some scored \<Longrightarrow> m \<in> set scored \<Longrightarrow>
     \<exists>m0 \<in> set moves. scoreMove trie board rack m0 = Some m"
proof (induction moves arbitrary: scored)
  case Nil
  then show ?case by simp
next
  case (Cons m0 moves)
  from Cons.prems(1) obtain m' ms' where
    h: "scoreMove trie board rack m0 = Some m'" "scoreMoves trie board rack moves = Some ms'"
       "scored = m' # ms'"
    by (auto split: option.splits)
  show ?case
  proof (cases "m = m'")
    case True
    with h(1) show ?thesis by auto
  next
    case False
    with Cons.prems(2) h(3) have "m \<in> set ms'" by simp
    from Cons.IH[OF h(2) this] show ?thesis by auto
  qed
qed

lemma scoreMove_kept:
  assumes "scoreMove trie board rack m0 = Some m" "keepMove m"
  shows "\<exists>res. calculateMoveScore trie board (mtiles m) rack (mrow m) (mcol m) (mdirection m) = Some res
           \<and> isValid res \<and> score res > 0 \<and> mscore m = Some (score res) \<and> misValid m = Some True"
proof -
  from assms(1) obtain res where
    r: "calculateMoveScore trie board (mtiles m0) rack (mrow m0) (mcol m0) (mdirection m0) = Some res"
    and m: "m = m0\<lparr>mscore := Some (if isValid res then score res else - 1),
                    misValid := Some (isValid res), merror := error res\<rparr>"
    by (auto simp add: scoreMove_def split: option.splits)
  from assms(2) m have v: "isValid res" and s: "score res > 0"
    by (auto simp add: keepMove_def split: if_splits)
  show ?thesis using r v s m by simp
qed

lemma nested_option_cases:
  assumes "(case a of None \<Rightarrow> None
            | Some x \<Rightarrow> (case b x of None \<Rightarrow> None
                         | Some y \<Rightarrow> (case c y of None \<Rightarrow> None | Some z \<Rightarrow> Some (f z)))) = Some r"
  shows "\<exists>y z. c y = Some z \<and> r = f z"
  using assms by (auto split: option.splits)

lemma findBestMoves_Some:
  assumes "findBestMoves (Some trie) board rack limit = Some ms"
  shows "\<exists>moves scored. scoreMoves (Some trie) board rack moves = Some scored
      \<and> ms = sliceFromStart (if limit = 0 then 5000 else limit)
                    (sortByScore (dedupe (filter keepMove scored)))"
proof -
  note h = assms(1)[unfolded findBestMoves.simps Let_def]
  from nested_option_cases[OF h] show ?thesis .
qed

text \<open>
  Claim C2. For every dictionary state, board, rack and limit: when \<open>findBestMoves\<close>
  returns a list, the validator \<open>calculateMoveScore\<close>, called on the same board (not
  transposed) and rack with the tiles, row, column and direction of any move in the
  list, returns a result that is valid with a score above zero; and the move carries
  that score and the valid mark. So a candidate the validator rejects, or scores at
  zero or below, is not in the list.
\<close>

theorem findBestMoves_valid:
  assumes "findBestMoves dict board rack limit = Some ms" "m \<in> set ms"
  shows "\<exists>res. calculateMoveScore dict board (mtiles m) rack (mrow m) (mcol m) (mdirection m) = Some res
           \<and> isValid res \<and> score res > 0 \<and> mscore m = Some (score res) \<and> misValid m = Some True"
proof (cases dict)
  case None
  from assms(1) have "ms = []" unfolding None by simp
  with assms(2) show ?thesis by simp
next
  case (Some trie)
  from findBestMoves_Some[OF assms(1)[unfolded Some]] obtain scored moves where
    sc: "scoreMoves (Some trie) board rack moves = Some scored"
    and ms: "ms = sliceFromStart (if limit = 0 then 5000 else limit)
                    (sortByScore (dedupe (filter keepMove scored)))"
    by blast
  from assms(2) have m1: "m \<in> set (sliceFromStart (if limit = 0 then 5000 else limit)
                    (sortByScore (dedupe (filter keepMove scored))))"
    unfolding ms .
  from subsetD[OF set_sliceFromStart m1]
  have "m \<in> set (dedupe (filter keepMove scored))"
    unfolding set_sortByScore .
  from subsetD[OF set_dedupe this] have "m \<in> set (filter keepMove scored)" .
  then have k: "keepMove m" and i: "m \<in> set scored" by simp_all
  from scoreMoves_member[OF sc i] obtain m0 where "scoreMove (Some trie) board rack m0 = Some m" by blast
  from scoreMove_kept[OF this k] show ?thesis unfolding Some .
qed

text \<open>
  The instance: the example dictionary, the empty board, the rack C, A and the limit 1.
  The finder returns the move CA from the center cell, and the validator gives it 6
  points.
\<close>

theorem findBestMoves_valid_witness:
  "findBestMoves (Some demoTrie) createInitialBoard [asc ''C'', asc ''A''] 1 = Some [demoMove]
   \<and> (\<exists>res. calculateMoveScore (Some demoTrie) createInitialBoard (mtiles demoMove) [asc ''C'', asc ''A'']
                (mrow demoMove) (mcol demoMove) (mdirection demoMove) = Some res
            \<and> isValid res \<and> score res > 0 \<and> mscore demoMove = Some (score res)
            \<and> misValid demoMove = Some True)
   \<and> calculateMoveScore (Some demoTrie) createInitialBoard (mtiles demoMove) [asc ''C'', asc ''A'']
        (mrow demoMove) (mcol demoMove) (mdirection demoMove)
       = Some \<lparr>score = 6, isValid = True, error = None\<rparr>"
proof -
  have e: "findBestMoves (Some demoTrie) createInitialBoard [asc ''C'', asc ''A''] 1 = Some [demoMove]"
    by code_simp
  have c: "calculateMoveScore (Some demoTrie) createInitialBoard (mtiles demoMove) [asc ''C'', asc ''A'']
        (mrow demoMove) (mcol demoMove) (mdirection demoMove)
       = Some \<lparr>score = 6, isValid = True, error = None\<rparr>"
    by code_simp
  from findBestMoves_valid[OF e, of demoMove] e c show ?thesis by simp
qed

section \<open>Without a dictionary\<close>

text \<open>
  Claim C8. With no dictionary loaded the two components fail in opposite directions:
  for every board, tiles, rack, start cell and direction the validator
  \<open>calculateMoveScore\<close> does not return the error of an invalid word, and its word test
  \<open>validateWord\<close> accepts every word; while \<open>findBestMoves\<close> returns the empty list for
  every board, rack and limit.
\<close>

theorem no_dictionary_asymmetry:
  "\<not> rejectsAsInvalidWord (calculateMoveScore None board tiles currentRack startRow startCol d)
   \<and> validateWord None w
   \<and> findBestMoves None board rack limit = Some []"
proof -
  have "\<not> rejectsAsInvalidWord (calculateMoveScore None board tiles currentRack startRow startCol d)"
  proof (cases "calculateMoveScore None board tiles currentRack startRow startCol d")
    case None
    then show ?thesis by (simp add: rejectsAsInvalidWord_def)
  next
    case (Some res)
    from no_dictionary_error[OF Some] have "\<And>x. error res \<noteq> Some (InvalidWord x)" .
    then show ?thesis
      unfolding Some by (auto simp add: rejectsAsInvalidWord_def split: option.splits ScoreError.splits)
  qed
  then show ?thesis by simp
qed

text \<open>
  The instance: ZZ, which is not a word of the example dictionary, played from the
  rack Z, Z on the center of the empty board. Without a dictionary the validator scores
  it as a valid move of 32 points and the finder proposes nothing; with the example
  dictionary the validator rejects it as an invalid word.
\<close>

theorem no_dictionary_asymmetry_witness:
  "\<not> rejectsAsInvalidWord (calculateMoveScore None createInitialBoard zzTiles [asc ''Z'', asc ''Z''] 7 7 DirH)
   \<and> calculateMoveScore None createInitialBoard zzTiles [asc ''Z'', asc ''Z''] 7 7 DirH
       = Some \<lparr>score = 32, isValid = True, error = None\<rparr>
   \<and> findBestMoves None createInitialBoard [asc ''Z'', asc ''Z''] 0 = Some []
   \<and> rejectsAsInvalidWord
        (calculateMoveScore (Some demoTrie) createInitialBoard zzTiles [asc ''Z'', asc ''Z''] 7 7 DirH)"
proof -
  have a: "calculateMoveScore None createInitialBoard zzTiles [asc ''Z'', asc ''Z''] 7 7 DirH
       = Some \<lparr>score = 32, isValid = True, error = None\<rparr>"
    by code_simp
  have b: "rejectsAsInvalidWord
        (calculateMoveScore (Some demoTrie) createInitialBoard zzTiles [asc ''Z'', asc ''Z''] 7 7 DirH)"
    by code_simp
  from no_dictionary_asymmetry[of createInitialBoard zzTiles "[asc ''Z'', asc ''Z'']" 7 7 DirH
         "asc ''ZZ''" "[asc ''Z'', asc ''Z'']" 0] a b
  show ?thesis by simp
qed

section \<open>A failed load of the dictionary\<close>









section \<open>The word test and the canonical form\<close>

subsection \<open>The replacements of the code are the steps\<close>






subsection \<open>The test for a Q without U\<close>














subsection \<open>What the word test returns\<close>




end
